theory Spec2Isabelle
  imports Main "HOL-Library.AList"
begin

section \<open>Python values\<close>

text \<open>
  The job queue of \<^verbatim>\<open>jobs.py\<close> handles untyped Python data: the payload of a job, the
  locations in it and what the worker callable returns are dicts of anything. They are
  modelled by one datatype of values. A dict has string keys and keeps its insertion
  order (an association list, looked up with \<open>map_of\<close> and written with
  \<open>AList.update\<close>). Numbers are integers here: the queue never computes with a number,
  it only asks whether a value is truthy.
\<close>

datatype pyval =
    PNone
  | PBool bool
  | PInt int
  | PStr string
  | PList "pyval list"
  | PDict "(string \<times> pyval) list"

type_synonym pydict = "(string \<times> pyval) list"

text \<open>Truth value testing, as \<^verbatim>\<open>if res:\<close> does it.\<close>

fun truthy :: "pyval \<Rightarrow> bool" where
  "truthy PNone = False"
| "truthy (PBool b) = b"
| "truthy (PInt n) = (n \<noteq> 0)"
| "truthy (PStr s) = (s \<noteq> [])"
| "truthy (PList xs) = (xs \<noteq> [])"
| "truthy (PDict d) = (d \<noteq> [])"

fun type_name :: "pyval \<Rightarrow> string" where
  "type_name PNone = ''NoneType''"
| "type_name (PBool b) = ''bool''"
| "type_name (PInt n) = ''int''"
| "type_name (PStr s) = ''str''"
| "type_name (PList xs) = ''list''"
| "type_name (PDict d) = ''dict''"

text \<open>\<^verbatim>\<open>d.get(k, default)\<close>; \<^verbatim>\<open>d.get(k)\<close> is \<open>dict_get d k PNone\<close>.\<close>

definition dict_get :: "pydict \<Rightarrow> string \<Rightarrow> pyval \<Rightarrow> pyval" where
  "dict_get d k dflt = (case map_of d k of None \<Rightarrow> dflt | Some v \<Rightarrow> v)"

text \<open>\<^verbatim>\<open>k in d\<close> for a dict \<open>d\<close>.\<close>

definition dict_has :: "pydict \<Rightarrow> string \<Rightarrow> bool" where
  "dict_has d k = (map_of d k \<noteq> None)"

text \<open>\<^verbatim>\<open>a or b\<close>: the first operand when it is truthy, the second otherwise.\<close>

definition py_or :: "pyval \<Rightarrow> pyval \<Rightarrow> pyval" where
  "py_or a b = (if truthy a then a else b)"

text \<open>
  Exceptions (subclasses of \<^verbatim>\<open>Exception\<close>) carry the text that \<^verbatim>\<open>str(e)\<close> gives.
  \<open>Raised\<close> is an exception of the worker callable or of a library function.
\<close>

datatype exn = AttributeError string | TypeError string | ValueError string | Raised string

fun str_exn :: "exn \<Rightarrow> string" where
  "str_exn (AttributeError m) = m"
| "str_exn (TypeError m) = m"
| "str_exn (ValueError m) = m"
| "str_exn (Raised m) = m"

text \<open>Decimal notation of a natural number, as an f-string prints \<^verbatim>\<open>len(locations)\<close>.\<close>

fun str_of_nat :: "nat \<Rightarrow> string" where
  "str_of_nat n =
     (if n < 10 then [''0123456789'' ! n]
      else str_of_nat (n div 10) @ [''0123456789'' ! (n mod 10)])"

declare str_of_nat.simps [simp del]

text \<open>A name in single quotes, as Python's messages print it.\<close>

definition quoted :: "string \<Rightarrow> string" where
  "quoted s = CHR 0x27 # s @ [CHR 0x27]"

text \<open>
  \<^verbatim>\<open>sep.join(xs)\<close>: every item must be a \<^verbatim>\<open>str\<close>, the first one that is not raises
  \<^verbatim>\<open>TypeError\<close>.
\<close>

fun join_items :: "nat \<Rightarrow> pyval list \<Rightarrow> exn + string list" where
  "join_items i [] = Inr []"
| "join_items i (PStr s # xs) =
     (case join_items (Suc i) xs of Inl e \<Rightarrow> Inl e | Inr ss \<Rightarrow> Inr (s # ss))"
| "join_items i (v # xs) =
     Inl (TypeError (''sequence item '' @ str_of_nat i @ '': expected str instance, ''
                     @ type_name v @ '' found''))"

fun intercalate :: "string \<Rightarrow> string list \<Rightarrow> string" where
  "intercalate sep [] = []"
| "intercalate sep [s] = s"
| "intercalate sep (s # t # ss) = s @ sep @ intercalate sep (t # ss)"

definition py_join :: "string \<Rightarrow> pyval list \<Rightarrow> exn + string" where
  "py_join sep xs =
     (case join_items 0 xs of Inl e \<Rightarrow> Inl e | Inr ss \<Rightarrow> Inr (intercalate sep ss))"

text \<open>
  \<^verbatim>\<open>v[:20]\<close>: the first 20 items of a list, the first 20 characters of a string; the
  other values cannot be sliced (for a dict the class of the exception depends on the
  version of Python; nothing below depends on it).
\<close>

fun py_slice20 :: "pyval \<Rightarrow> exn + pyval list" where
  "py_slice20 (PList xs) = Inr (take 20 xs)"
| "py_slice20 (PStr s) = Inr (map (\<lambda>c. PStr [c]) (take 20 s))"
| "py_slice20 (PDict d) = Inl (TypeError (''unhashable type: '' @ quoted ''slice''))"
| "py_slice20 v = Inl (TypeError (quoted (type_name v) @ '' object is not subscriptable''))"

section \<open>Job records and the queue\<close>

datatype JobStatusEnum = CANCELED | PENDING | RUNNING | FAILED | DONE

type_synonym timestamp = int

record job_result =
  count :: nat
  locations :: "pydict list"

record job =
  status :: JobStatusEnum
  payload :: pydict
  result :: job_result
  error :: "string option"
  completed :: nat
  failure :: nat
  created_at :: timestamp
  updated_at :: timestamp
  cancel_requested :: bool
  logged_to_db :: bool

text \<open>
  The state of an \<^verbatim>\<open>AsyncJobQueue\<close>: the job map \<^verbatim>\<open>_jobs\<close>, the admission queue
  \<^verbatim>\<open>_queue\<close> (first in, first out) and the constructor's \<^verbatim>\<open>per_job_concurrency\<close>.
\<close>

record AsyncJobQueue =
  jobs :: "string \<rightharpoonup> job"
  queue :: "string list"
  per_job_concurrency :: int

text \<open>
  The worker callable and the derivation of the screenshot URL
  (\<^verbatim>\<open>os.path.relpath\<close> and \<^verbatim>\<open>urljoin\<close>) are parameters. A worker takes the six
  arguments of the Python callable after the index of the location it is called for: the
  index is no argument of the Python callable, it numbers the call, so that two calls
  with equal arguments may end differently, as those of a real executor may.
  \<open>Inl e\<close> is a call that raises \<open>e\<close>.
\<close>

type_synonym worker =
  "nat \<Rightarrow> pyval \<Rightarrow> pyval \<Rightarrow> pyval \<Rightarrow> pyval \<Rightarrow> pyval \<Rightarrow> pyval \<Rightarrow> exn + pyval"

type_synonym url_fn = "pyval \<Rightarrow> pyval \<Rightarrow> exn + pyval"

subsection \<open>The facade: submit, get, remove, cancel\<close>

text \<open>
  \<open>submit\<close> takes the identifier drawn by \<^verbatim>\<open>os.urandom(8).hex()\<close> and the two readings
  of the clock as arguments.
\<close>

definition submit ::
  "string \<Rightarrow> timestamp \<Rightarrow> timestamp \<Rightarrow> pydict \<Rightarrow> AsyncJobQueue \<Rightarrow> string \<times> AsyncJobQueue" where
  "submit job_id t1 t2 p q =
     (let job_record = \<lparr> status = PENDING, payload = p,
                          result = \<lparr> count = 0, locations = [] \<rparr>,
                          error = None, completed = 0, failure = 0,
                          created_at = t1, updated_at = t2,
                          cancel_requested = False, logged_to_db = False \<rparr>
      in (job_id, q\<lparr> jobs := (jobs q)(job_id := Some job_record),
                     queue := queue q @ [job_id] \<rparr>))"

definition get :: "AsyncJobQueue \<Rightarrow> string \<Rightarrow> job option" where
  "get q job_id = jobs q job_id"

definition remove_job :: "string \<Rightarrow> AsyncJobQueue \<Rightarrow> AsyncJobQueue" where
  "remove_job job_id q = q\<lparr> jobs := (jobs q)(job_id := None) \<rparr>"

definition cancel ::
  "timestamp \<Rightarrow> string \<Rightarrow> AsyncJobQueue \<Rightarrow> job option \<times> AsyncJobQueue" where
  "cancel now job_id q =
     (case jobs q job_id of
        None \<Rightarrow> (None, q)
      | Some j \<Rightarrow>
          if status j = DONE \<or> status j = FAILED \<or> status j = CANCELED then (Some j, q)
          else
            let j' = j\<lparr> cancel_requested := True, status := CANCELED, updated_at := now \<rparr>
            in (Some j', q\<lparr> jobs := (jobs q)(job_id := Some j') \<rparr>))"

subsection \<open>The fan-out controller\<close>

text \<open>
  \<^verbatim>\<open>_run_single_location\<close>: the five fields of the location and the proxy go to the
  worker callable. A location that is no dict has no \<^verbatim>\<open>get\<close>.
\<close>

definition run_single_location :: "worker \<Rightarrow> nat \<Rightarrow> pyval \<Rightarrow> pyval \<Rightarrow> exn + pyval" where
  "run_single_location w idx loc proxy =
     (case loc of
        PDict d \<Rightarrow>
          w idx (dict_get d ''lat'' PNone) (dict_get d ''lng'' PNone)
            (dict_get d ''storefront_direction'' (PStr ''north''))
            (dict_get d ''day'' PNone) (dict_get d ''time'' PNone) proxy
      | _ \<Rightarrow>
          Inl (AttributeError
                 (quoted (type_name loc) @ '' object has no attribute '' @ quoted ''get'')))"

text \<open>
  \<^verbatim>\<open>process_location\<close>, the body of one location task: nothing is done once
  cancellation is requested; an exception of the call is counted in \<open>failure\<close> and
  returned as an error record.
\<close>

definition process_location :: "worker \<Rightarrow> nat \<Rightarrow> pyval \<Rightarrow> job \<Rightarrow> pyval \<times> job" where
  "process_location w idx loc j =
     (if cancel_requested j then (PNone, j)
      else
        case run_single_location w idx loc (dict_get (payload j) ''proxy'' PNone) of
          Inr res \<Rightarrow> (res, j)
        | Inl e \<Rightarrow>
            (PDict [(''error'', PStr (''Location analysis failed: '' @ str_exn e))],
             j\<lparr> failure := failure j + 1 \<rparr>))"

text \<open>The loop that creates the tasks stops at the first location seen after a cancellation.\<close>

fun create_tasks :: "job \<Rightarrow> (nat \<times> pyval) list \<Rightarrow> (nat \<times> pyval) list" where
  "create_tasks j [] = []"
| "create_tasks j ((idx, loc) # rest) =
     (if cancel_requested j then [] else (idx, loc) # create_tasks j rest)"

text \<open>
  What the collecting loop does with the result of one task (lines 175 to 197). The slots
  of \<^verbatim>\<open>results\<close> hold \<^verbatim>\<open>None\<close> or the dict stored there: a truthy result that is no
  dict has no \<^verbatim>\<open>get\<close>, the \<^verbatim>\<open>AttributeError\<close> is caught by the loop and the slot
  keeps its \<^verbatim>\<open>None\<close>. An exception of the URL derivation is caught too and leaves
  the URL \<^verbatim>\<open>None\<close>.
\<close>

definition store_result ::
  "url_fn \<Rightarrow> job \<Rightarrow> nat \<Rightarrow> pyval \<Rightarrow> pydict option list \<Rightarrow> pydict option list" where
  "store_result u j idx res results =
     (if truthy res then
        (case res of
           PDict d \<Rightarrow>
             let screenshot_path =
                   py_or (dict_get d ''screenshot_path'' PNone)
                         (dict_get d ''pinned_screenshot_path'' PNone);
                 screenshot_url =
                   (if truthy screenshot_path then
                      (case u screenshot_path
                              (dict_get (payload j) ''request_base_url'' (PStr ''/'')) of
                         Inr url \<Rightarrow> url
                       | Inl e \<Rightarrow> PNone)
                    else PNone)
             in results[idx := Some (AList.update ''screenshot_url'' screenshot_url d)]
         | _ \<Rightarrow> results)
      else results)"

text \<open>
  The collecting loop: it stops at the first task seen after a cancellation; awaiting a
  task gives the result of \<open>process_location\<close>; \<open>completed\<close> grows by one whatever
  the result is (the \<^verbatim>\<open>finally\<close> of line 201).
\<close>

fun collect ::
  "worker \<Rightarrow> url_fn \<Rightarrow> (nat \<times> pyval) list \<Rightarrow> job \<times> pydict option list
     \<Rightarrow> job \<times> pydict option list" where
  "collect w u [] (j, results) = (j, results)"
| "collect w u ((idx, loc) # tasks) (j, results) =
     (if cancel_requested j then (j, results)
      else
        let (res, j1) = process_location w idx loc j;
            results1 = store_result u j1 idx res results;
            j2 = j1\<lparr> completed := completed j1 + 1 \<rparr>
        in collect w u tasks (j2, results1))"

text \<open>
  Lines 204 to 222: unless cancellation is requested, the successful results are stored
  and the status is decided. The second component is the exception that the \<^verbatim>\<open>join\<close>
  raises on an error value that is no string.
\<close>

definition kept :: "pydict option \<Rightarrow> pydict option" where
  "kept r = (case r of
               None \<Rightarrow> None
             | Some d \<Rightarrow> if d \<noteq> [] \<and> \<not> dict_has d ''error'' then Some d else None)"

definition error_message :: "pydict option \<Rightarrow> pyval option" where
  "error_message r =
     (case r of
        None \<Rightarrow> None
      | Some d \<Rightarrow>
          if d \<noteq> [] \<and> dict_has d ''error''
          then Some (dict_get d ''error'' (PStr ''Unknown error'')) else None)"

definition finalize :: "pyval list \<Rightarrow> pydict option list \<Rightarrow> job \<Rightarrow> job \<times> exn option" where
  "finalize locs results j =
     (if \<not> cancel_requested j then
        let recorded = List.map_filter kept results;
            j1 = j\<lparr> result := \<lparr> count = length recorded, locations = recorded \<rparr> \<rparr>
        in
          if length locs > 0 \<and> failure j1 = length locs then
            (case py_join ''; '' (take 3 (List.map_filter error_message results)) of
               Inl e \<Rightarrow> (j1, Some e)
             | Inr msgs \<Rightarrow>
                 (j1\<lparr> error := Some (''All '' @ str_of_nat (length locs)
                                        @ '' location(s) failed. Errors: '' @ msgs),
                      status := FAILED \<rparr>, None))
          else (j1\<lparr> status := DONE \<rparr>, None)
      else (j, None))"

text \<open>
  The body of the \<^verbatim>\<open>try\<close> (lines 142 to 222). \<^verbatim>\<open>asyncio.Semaphore\<close> refuses a
  negative bound. With the bound 0 no task ever passes the gate, and the first
  \<^verbatim>\<open>await\<close> of the collecting loop never returns: the value is \<open>None\<close>. With a
  positive bound the gate limits how many tasks run at a time, not what they compute:
  a task changes the record only by adding one to \<open>failure\<close>, so the record after the
  loop is the one obtained by running each task where the loop awaits it. A call of
  \<^verbatim>\<open>cancel\<close> acts on the queue before or after \<open>process_job\<close>; one that arrives
  while the loop awaits a task is outside this model, as is the \<^verbatim>\<open>CancelledError\<close>
  that \<^verbatim>\<open>stop\<close> sends to a worker (it is no \<^verbatim>\<open>Exception\<close>).
\<close>

definition fan_out ::
  "worker \<Rightarrow> url_fn \<Rightarrow> int \<Rightarrow> pyval list \<Rightarrow> job \<Rightarrow> (job \<times> exn option) option" where
  "fan_out w u conc locs j =
     (if conc < 0 then Some (j, Some (ValueError ''Semaphore initial value must be >= 0''))
      else
        let tasks = create_tasks j (List.enumerate 0 locs) in
        if conc = 0 \<and> tasks \<noteq> [] then None
        else
          let (j1, results) = collect w u tasks (j, replicate (length locs) None)
          in Some (finalize locs results j1))"

text \<open>
  The \<^verbatim>\<open>except\<close> and \<^verbatim>\<open>finally\<close> clauses of lines 224 to 231: an exception raised
  in the \<^verbatim>\<open>try\<close> makes the job \<^verbatim>\<open>FAILED\<close>, and \<^verbatim>\<open>updated_at\<close> is refreshed.
\<close>

definition except_finally :: "timestamp \<Rightarrow> job \<times> exn option \<Rightarrow> job" where
  "except_finally t2 r =
     (case r of
        (j, None) \<Rightarrow> j\<lparr> updated_at := t2 \<rparr>
      | (j, Some e) \<Rightarrow>
          j\<lparr> error := Some (''Job processing failed: '' @ str_exn e),
             status := FAILED, updated_at := t2 \<rparr>)"

text \<open>
  \<^verbatim>\<open>_process_job\<close>. The two readings of the clock are arguments. The result is
  \<open>None\<close> when the call never returns; otherwise it is the queue after the call and
  the exception that left the call, if any. The claim of the job (lines 135 and 136) and
  the slice of line 138 come before the \<^verbatim>\<open>try\<close>: an exception of the slice leaves
  the call.
\<close>

definition process_job ::
  "worker \<Rightarrow> url_fn \<Rightarrow> timestamp \<Rightarrow> timestamp \<Rightarrow> string \<Rightarrow> AsyncJobQueue
     \<Rightarrow> (AsyncJobQueue \<times> exn option) option" where
  "process_job w u t1 t2 job_id q =
     (case jobs q job_id of
        None \<Rightarrow> Some (q, None)
      | Some j \<Rightarrow>
          let j1 = j\<lparr> status := RUNNING, updated_at := t1 \<rparr> in
          case py_slice20 (dict_get (payload j1) ''locations'' (PList [])) of
            Inl e \<Rightarrow> Some (q\<lparr> jobs := (jobs q)(job_id := Some j1) \<rparr>, Some e)
          | Inr locs \<Rightarrow>
              (case fan_out w u (per_job_concurrency q) locs j1 of
                 None \<Rightarrow> None
               | Some r \<Rightarrow>
                   Some (q\<lparr> jobs := (jobs q)(job_id := Some (except_finally t2 r)) \<rparr>,
                         None)))"

text \<open>
  One turn of \<^verbatim>\<open>_worker_loop\<close>: the first identifier of the admission queue is taken
  and processed; an exception that leaves \<^verbatim>\<open>_process_job\<close> is logged and the loop goes
  on. With an empty queue the wait times out and nothing changes.
\<close>

definition worker_turn ::
  "worker \<Rightarrow> url_fn \<Rightarrow> timestamp \<Rightarrow> timestamp \<Rightarrow> AsyncJobQueue \<Rightarrow> AsyncJobQueue option" where
  "worker_turn w u t1 t2 q =
     (case queue q of
        [] \<Rightarrow> Some q
      | job_id # rest \<Rightarrow>
          map_option fst (process_job w u t1 t2 job_id (q\<lparr> queue := rest \<rparr>)))"

section \<open>Auxiliary notions for the proofs\<close>

text \<open>
  The outcome of the call made for the location \<open>loc\<close> at index \<open>idx\<close> of a job with
  payload \<open>p\<close>, and the value that the location task returns for it.
\<close>

definition call_result :: "worker \<Rightarrow> pydict \<Rightarrow> nat \<Rightarrow> pyval \<Rightarrow> exn + pyval" where
  "call_result w p idx loc = run_single_location w idx loc (dict_get p ''proxy'' PNone)"

definition task_value :: "exn + pyval \<Rightarrow> pyval" where
  "task_value r =
     (case r of
        Inr res \<Rightarrow> res
      | Inl e \<Rightarrow> PDict [(''error'', PStr (''Location analysis failed: '' @ str_exn e))])"

text \<open>What \<open>store_result\<close> writes into the slot of a task that returned \<open>res\<close>, if anything.\<close>

definition slot :: "url_fn \<Rightarrow> pydict \<Rightarrow> pyval \<Rightarrow> pydict option" where
  "slot u p res =
     (case res of
        PDict d \<Rightarrow>
          if d = [] then None
          else
            let screenshot_path =
                  py_or (dict_get d ''screenshot_path'' PNone)
                        (dict_get d ''pinned_screenshot_path'' PNone);
                screenshot_url =
                  (if truthy screenshot_path then
                     (case u screenshot_path (dict_get p ''request_base_url'' (PStr ''/'')) of
                        Inr url \<Rightarrow> url
                      | Inl e \<Rightarrow> PNone)
                   else PNone)
            in Some (AList.update ''screenshot_url'' screenshot_url d)
      | _ \<Rightarrow> None)"

definition slot_of :: "worker \<Rightarrow> url_fn \<Rightarrow> pydict \<Rightarrow> nat \<times> pyval \<Rightarrow> pydict option" where
  "slot_of w u p t = slot u p (task_value (call_result w p (fst t) (snd t)))"

text \<open>The number of tasks whose call raises.\<close>

definition fails :: "worker \<Rightarrow> pydict \<Rightarrow> (nat \<times> pyval) list \<Rightarrow> nat" where
  "fails w p tasks = length (filter (\<lambda>(idx, loc). isl (call_result w p idx loc)) tasks)"

text \<open>The record after the claim of the job, and after the fan-out over \<open>locs\<close>.\<close>

definition claimed :: "timestamp \<Rightarrow> job \<Rightarrow> job" where
  "claimed t1 j = j\<lparr> status := RUNNING, updated_at := t1 \<rparr>"

definition fanned :: "worker \<Rightarrow> url_fn \<Rightarrow> pyval list \<Rightarrow> job \<Rightarrow> job \<times> exn option" where
  "fanned w u locs j =
     finalize locs (map (slot_of w u (payload j)) (List.enumerate 0 locs))
       (j\<lparr> failure := failure j + fails w (payload j) (List.enumerate 0 locs),
           completed := completed j + length locs \<rparr>)"

text \<open>
  A result record that the controller counts as a success: a dict that is not empty and
  has no key \<^verbatim>\<open>error\<close>. Every record with a score and no such key is one.
\<close>

definition well_formed_result :: "pyval \<Rightarrow> bool" where
  "well_formed_result res =
     (case res of PDict d \<Rightarrow> d \<noteq> [] \<and> \<not> dict_has d ''error'' | _ \<Rightarrow> False)"

subsection \<open>Sample data\<close>

definition q0 :: AsyncJobQueue where
  "q0 = \<lparr> jobs = Map.empty, queue = [], per_job_concurrency = 20 \<rparr>"

definition loc1 :: pyval where
  "loc1 = PDict [(''lat'', PInt 24), (''lng'', PInt 46)]"

definition loc2 :: pyval where
  "loc2 = PDict [(''lat'', PInt 25), (''lng'', PInt 47), (''day'', PStr ''Monday'')]"

definition w_ok :: worker where
  "w_ok idx lat lng sd day tm proxy = Inr (PDict [(''score'', PInt 50)])"

definition w_raise :: worker where
  "w_raise idx lat lng sd day tm proxy = Inl (Raised ''boom'')"

definition w_second_raises :: worker where
  "w_second_raises idx lat lng sd day tm proxy =
     (if idx = 1 then Inl (Raised ''boom'') else Inr (PDict [(''score'', PInt 50)]))"

definition w_second_none :: worker where
  "w_second_none idx lat lng sd day tm proxy =
     (if idx = 1 then Inr PNone else Inr (PDict [(''score'', PInt 50)]))"

definition no_url :: url_fn where
  "no_url path base = Inl (ValueError ''no url'')"

definition submitted :: "pyval list \<Rightarrow> AsyncJobQueue" where
  "submitted locs = snd (submit ''ab12'' 0 0 [(''locations'', PList locs)] q0)"

definition submitted_job :: "pyval list \<Rightarrow> job" where
  "submitted_job locs =
     \<lparr> status = PENDING, payload = [(''locations'', PList locs)],
       result = \<lparr> count = 0, locations = [] \<rparr>,
       error = None, completed = 0, failure = 0, created_at = 0, updated_at = 0,
       cancel_requested = False, logged_to_db = False \<rparr>"

definition w_beyond :: worker where
  "w_beyond idx = (if idx < 20 then w_ok idx else w_raise idx)"

definition w_mixed :: worker where
  "w_mixed idx lat lng sd day tm proxy =
     (if idx = 0 then Inr (PDict [(''score'', PInt 50)])
      else if idx = 1 then Inl (Raised ''boom'')
      else Inr PNone)"

definition submitted_none :: AsyncJobQueue where
  "submitted_none = snd (submit ''ab12'' 0 0 [(''locations'', PNone)] q0)"

section \<open>The fan-out without cancellation\<close>

lemma store_result_slot:
  "store_result u j idx res results =
     (case slot u (payload j) res of None \<Rightarrow> results | Some d \<Rightarrow> results[idx := Some d])"
  by (cases res) (simp_all add: store_result_def slot_def Let_def)

lemma process_location_eq:
  "\<not> cancel_requested j \<Longrightarrow>
   process_location w idx loc j =
     (task_value (call_result w (payload j) idx loc),
      j\<lparr> failure := failure j + (if isl (call_result w (payload j) idx loc) then 1 else 0) \<rparr>)"
  by (auto simp: process_location_def call_result_def task_value_def split: sum.splits)

lemma collect_job:
  "\<not> cancel_requested j \<Longrightarrow>
   fst (collect w u tasks (j, results)) =
     j\<lparr> failure := failure j + fails w (payload j) tasks,
        completed := completed j + length tasks \<rparr>"
proof (induction tasks arbitrary: j results)
  case Nil
  then show ?case by (simp add: fails_def)
next
  case (Cons t tasks)
  obtain idx loc where t: "t = (idx, loc)" by (cases t)
  let ?j2 = "j\<lparr> failure := failure j + (if isl (call_result w (payload j) idx loc) then 1 else 0),
               completed := completed j + 1 \<rparr>"
  have c: "\<not> cancel_requested ?j2" using Cons.prems by simp
  show ?case
    using Cons.prems Cons.IH[OF c]
    by (simp add: t process_location_eq fails_def)
qed

lemma collect_results:
  "\<not> cancel_requested j \<Longrightarrow> length done = k \<Longrightarrow>
   snd (collect w u (List.enumerate k locs) (j, done @ replicate (length locs) None)) =
     done @ map (slot_of w u (payload j)) (List.enumerate k locs)"
proof (induction locs arbitrary: j k "done")
  case Nil
  then show ?case by simp
next
  case (Cons loc locs)
  let ?r = "call_result w (payload j) k loc"
  let ?j2 = "j\<lparr> failure := failure j + (if isl ?r then 1 else 0),
               completed := completed j + 1 \<rparr>"
  let ?s = "slot u (payload j) (task_value ?r)"
  have c: "\<not> cancel_requested ?j2" using Cons.prems by simp
  have l: "length (done @ [?s]) = Suc k" using Cons.prems by simp
  have st: "store_result u j' k (task_value ?r) (done @ None # replicate (length locs) None)
            = done @ ?s # replicate (length locs) None" if "payload j' = payload j" for j'
    using Cons.prems(2) that
    by (simp add: store_result_slot list_update_append split: option.splits)
  show ?case
    using Cons.prems(1) Cons.IH[OF c l]
    by (simp add: process_location_eq slot_of_def st split del: if_split)
qed

lemma create_tasks_all: "\<not> cancel_requested j \<Longrightarrow> create_tasks j tasks = tasks"
  by (induction tasks) auto

lemma collect_eq:
  assumes "\<not> cancel_requested j"
  shows "collect w u (List.enumerate 0 locs) (j, replicate (length locs) None) =
           (j\<lparr> failure := failure j + fails w (payload j) (List.enumerate 0 locs),
               completed := completed j + length locs \<rparr>,
            map (slot_of w u (payload j)) (List.enumerate 0 locs))"
  using collect_job[OF assms, of w u "List.enumerate 0 locs" "replicate (length locs) None"]
        collect_results[OF assms, of "[]" 0 w u locs]
  by (simp add: prod_eq_iff)

lemma fan_out_run:
  assumes "\<not> cancel_requested j" "0 < conc"
  shows "fan_out w u conc locs j = Some (fanned w u locs j)"
  using assms(2)
  by (simp add: fan_out_def create_tasks_all[OF assms(1)] collect_eq[OF assms(1)] fanned_def)

lemma process_job_run:
  assumes "jobs q job_id = Some j" "\<not> cancel_requested j" "0 < per_job_concurrency q"
      and "dict_get (payload j) ''locations'' (PList []) = PList all_locs"
  shows "process_job w u t1 t2 job_id q =
           Some (q\<lparr> jobs := (jobs q)(job_id :=
                   Some (except_finally t2 (fanned w u (take 20 all_locs) (claimed t1 j)))) \<rparr>,
                 None)"
proof -
  have c: "\<not> cancel_requested (claimed t1 j)" using assms(2) by (simp add: claimed_def)
  have p: "payload (claimed t1 j) = payload j" by (simp add: claimed_def)
  show ?thesis
    unfolding process_job_def Let_def claimed_def[symmetric]
    using assms(1,4) by (simp add: p fan_out_run[OF c assms(3)])
qed

lemma finalize_status:
  "\<not> cancel_requested j \<Longrightarrow>
   status (except_finally t2 (finalize locs results j)) = DONE \<or>
   status (except_finally t2 (finalize locs results j)) = FAILED"
  by (simp add: finalize_def except_finally_def Let_def split: sum.splits)

lemma jobs_submitted: "jobs (submitted locs) ''ab12'' = Some (submitted_job locs)"
  by (simp add: submitted_def submitted_job_def submit_def q0_def)

lemma submitted_conc: "per_job_concurrency (submitted locs) = 20"
  by (simp add: submitted_def submit_def q0_def)

lemma submitted_locations:
  "dict_get (payload (submitted_job locs)) ''locations'' (PList []) = PList locs"
  by (simp add: submitted_job_def dict_get_def)

lemma length_map_filter:
  "length (List.map_filter f xs) = length (filter (\<lambda>x. f x \<noteq> None) xs)"
  by (simp add: List.map_filter_def)

lemma map_filter_map: "List.map_filter f (map g xs) = List.map_filter (\<lambda>x. f (g x)) xs"
  by (induction xs) (simp_all split: option.splits)

lemma final_counters:
  assumes "\<not> cancel_requested j"
  shows "completed (except_finally t2 (fanned w u locs j)) = completed j + length locs"
    and "failure (except_finally t2 (fanned w u locs j)) =
           failure j + fails w (payload j) (List.enumerate 0 locs)"
    and "locations (result (except_finally t2 (fanned w u locs j))) =
           List.map_filter (\<lambda>t. kept (slot_of w u (payload j) t)) (List.enumerate 0 locs)"
    and "count (result (except_finally t2 (fanned w u locs j))) =
           length (filter (\<lambda>t. kept (slot_of w u (payload j) t) \<noteq> None) (List.enumerate 0 locs))"
  using assms
  by (simp_all add: fanned_def finalize_def except_finally_def Let_def map_filter_map
        length_map_filter split: sum.splits)

lemma final_done:
  assumes "\<not> cancel_requested j"
      and "locs = [] \<or> failure j + fails w (payload j) (List.enumerate 0 locs) \<noteq> length locs"
  shows "status (except_finally t2 (fanned w u locs j)) = DONE"
  using assms
  by (auto simp: fanned_def finalize_def except_finally_def Let_def)

lemma slot_of_fail:
  assumes "call_result w p i loc = Inl e"
  shows "slot_of w u p (i, loc) =
           Some [(''error'', PStr (''Location analysis failed: '' @ str_exn e)),
                 (''screenshot_url'', PNone)]"
  using assms
  by (simp add: slot_of_def task_value_def slot_def dict_get_def py_or_def)

lemma kept_fail:
  "call_result w p i loc = Inl e \<Longrightarrow> kept (slot_of w u p (i, loc)) = None"
  by (simp add: slot_of_fail kept_def dict_has_def)

lemma error_message_fail:
  "call_result w p i loc = Inl e \<Longrightarrow>
   error_message (slot_of w u p (i, loc)) =
     Some (PStr (''Location analysis failed: '' @ str_exn e))"
  by (simp add: slot_of_fail error_message_def dict_has_def dict_get_def)

lemma kept_ok:
  assumes "call_result w p i loc = Inr res" and "well_formed_result res"
  shows "kept (slot_of w u p (i, loc)) \<noteq> None"
  using assms
  by (cases res)
     (simp_all add: well_formed_result_def slot_of_def task_value_def slot_def kept_def
        dict_has_def Let_def update_conv')

lemma kept_truthy:
  assumes "kept (slot_of w u p (i, loc)) \<noteq> None"
  shows "\<exists>res. call_result w p i loc = Inr res \<and> truthy res"
proof (cases "call_result w p i loc")
  case (Inl e)
  then show ?thesis using assms by (simp add: kept_fail)
next
  case (Inr res)
  then show ?thesis using assms
    by (cases res) (auto simp: slot_of_def task_value_def slot_def kept_def split: if_splits)
qed

lemma join_items_strs: "join_items i (map PStr ss) = Inr ss"
  by (induction ss arbitrary: i) simp_all

lemma py_join_strs: "py_join sep (map PStr ss) = Inr (intercalate sep ss)"
  by (simp add: py_join_def join_items_strs)

lemma tasks_cong:
  assumes "\<And>i. i < length locs \<Longrightarrow> f (i, locs ! i) = g i"
  shows "map f (List.enumerate 0 locs) = map g [0..<length locs]"
proof -
  have "map f (List.enumerate 0 locs) = map (g \<circ> fst) (List.enumerate 0 locs)"
    using assms by (auto simp: in_set_enumerate_eq)
  then show ?thesis by (simp flip: map_map)
qed

lemma tasks_all:
  assumes "\<And>i. i < length locs \<Longrightarrow> P (i, locs ! i)"
  shows "filter P (List.enumerate 0 locs) = List.enumerate 0 locs"
  using assms by (auto simp: in_set_enumerate_eq filter_id_conv)

lemma tasks_none:
  assumes "\<And>i. i < length locs \<Longrightarrow> \<not> P (i, locs ! i)"
  shows "filter P (List.enumerate 0 locs) = []"
  using assms by (auto simp: in_set_enumerate_eq filter_empty_conv)

lemma take_upt_min: "take k [0..<n] = [0..<min k n]"
  by (cases "k \<le> n") (simp_all add: min_def)

lemma all_raise:
  assumes "\<not> cancel_requested j" and "failure j = 0" and "locs \<noteq> []"
      and r: "\<And>i. i < length locs \<Longrightarrow> call_result w (payload j) i (locs ! i) = Inl (err i)"
  shows "fanned w u locs j =
           (j\<lparr> failure := length locs, completed := completed j + length locs,
               result := \<lparr> count = 0, locations = [] \<rparr>,
               error := Some (''All '' @ str_of_nat (length locs)
                              @ '' location(s) failed. Errors: ''
                              @ intercalate ''; ''
                                  (map (\<lambda>i. ''Location analysis failed: '' @ str_exn (err i))
                                       [0..<min 3 (length locs)])),
               status := FAILED \<rparr>, None)"
proof -
  let ?tasks = "List.enumerate 0 locs"
  let ?msg = "\<lambda>i. ''Location analysis failed: '' @ str_exn (err i)"
  have f: "fails w (payload j) ?tasks = length locs"
    using r by (simp add: fails_def tasks_all)
  have k: "List.map_filter (\<lambda>t. kept (slot_of w u (payload j) t)) ?tasks = []"
    using r by (simp add: List.map_filter_def tasks_none kept_fail)
  have "List.map_filter (\<lambda>t. error_message (slot_of w u (payload j) t)) ?tasks =
          map (the \<circ> (\<lambda>t. error_message (slot_of w u (payload j) t))) ?tasks"
    using r by (simp add: List.map_filter_def tasks_all error_message_fail)
  also have "\<dots> = map (\<lambda>i. PStr (?msg i)) [0..<length locs]"
    using r by (intro tasks_cong) (simp add: error_message_fail)
  finally have m: "List.map_filter (\<lambda>t. error_message (slot_of w u (payload j) t)) ?tasks =
                     map PStr (map ?msg [0..<length locs])"
    by simp
  have "py_join ''; '' (take 3 (map PStr (map ?msg [0..<length locs]))) =
          py_join ''; '' (map PStr (map ?msg [0..<min 3 (length locs)]))"
    by (simp only: take_map take_upt_min)
  then have t: "py_join ''; '' (take 3 (map PStr (map ?msg [0..<length locs]))) =
          Inr (intercalate ''; '' (map ?msg [0..<min 3 (length locs)]))"
    by (simp only: py_join_strs)
  have n: "\<not> cancel_requested (j\<lparr> failure := a, completed := b \<rparr>)" for a b
    using assms(1) by simp
  show ?thesis
    unfolding fanned_def finalize_def Let_def map_filter_map f k m t
    using assms(1,2,3) by simp
qed

lemma filter_disjoint_add:
  "\<forall>x\<in>set xs. \<not> (P x \<and> Q x) \<Longrightarrow>
   length (filter P xs) + length (filter Q xs) = length (filter (\<lambda>x. P x \<or> Q x) xs)"
  by (induction xs) auto

lemma in_tasks: "(i, loc) \<in> set (List.enumerate 0 locs) \<longleftrightarrow> i < length locs \<and> loc = locs ! i"
  by (auto simp: in_set_enumerate_eq)

lemma claimed_simps:
  "cancel_requested (claimed t1 j) = cancel_requested j"
  "payload (claimed t1 j) = payload j"
  "failure (claimed t1 j) = failure j"
  "completed (claimed t1 j) = completed j"
  by (simp_all add: claimed_def)

lemma kept_iff_not_fail:
  assumes "\<forall>i<length locs. (\<exists>e. call_result w p i (locs ! i) = Inl e) \<or>
             (\<exists>res. call_result w p i (locs ! i) = Inr res \<and> well_formed_result res)"
      and "t \<in> set (List.enumerate 0 locs)"
  shows "(kept (slot_of w u p t) \<noteq> None) = (\<not> (case t of (idx, loc) \<Rightarrow> isl (call_result w p idx loc)))"
proof -
  obtain i loc where t: "t = (i, loc)" by (cases t)
  then have i: "i < length locs" and l: "loc = locs ! i"
    using assms(2) by (simp_all add: in_tasks)
  from assms(1) i l consider e where "call_result w p i loc = Inl e"
    | res where "call_result w p i loc = Inr res" "well_formed_result res"
    by blast
  then show ?thesis
    by cases (simp_all add: t kept_fail kept_ok)
qed

lemma count_plus_fails:
  assumes "\<forall>i<length locs. (\<exists>e. call_result w p i (locs ! i) = Inl e) \<or>
             (\<exists>res. call_result w p i (locs ! i) = Inr res \<and> well_formed_result res)"
  shows "length (filter (\<lambda>t. kept (slot_of w u p t) \<noteq> None) (List.enumerate 0 locs))
           + fails w p (List.enumerate 0 locs) = length locs"
proof -
  let ?F = "\<lambda>t. case t of (idx, loc) \<Rightarrow> isl (call_result w p idx loc)"
  have "filter (\<lambda>t. kept (slot_of w u p t) \<noteq> None) (List.enumerate 0 locs) =
        filter (\<lambda>t. \<not> ?F t) (List.enumerate 0 locs)"
    by (rule filter_cong[OF refl]) (rule kept_iff_not_fail[OF assms])
  then show ?thesis
    using sum_length_filter_compl[of ?F "List.enumerate 0 locs"]
    by (simp add: fails_def)
qed

lemma fails_less:
  assumes "i < length locs" and "\<not> isl (call_result w p i (locs ! i))"
  shows "fails w p (List.enumerate 0 locs) < length locs"
proof -
  have "(i, locs ! i) \<in> set (List.enumerate 0 locs)"
    using assms(1) by (simp add: in_tasks)
  from length_filter_less[OF this, of "\<lambda>(idx, loc). isl (call_result w p idx loc)"] assms(2)
  show ?thesis by (simp add: fails_def)
qed

lemma fails_pos:
  assumes "i < length locs" and "isl (call_result w p i (locs ! i))"
  shows "0 < fails w p (List.enumerate 0 locs)"
proof -
  have "(i, locs ! i) \<in> set (List.enumerate 0 locs)"
    using assms(1) by (simp add: in_tasks)
  then show ?thesis
    using assms(2) by (auto simp: fails_def filter_empty_conv)
qed

lemma count_fails_less:
  assumes "i < length locs" and "call_result w p i (locs ! i) = Inr v" and "\<not> truthy v"
  shows "length (filter (\<lambda>t. kept (slot_of w u p t) \<noteq> None) (List.enumerate 0 locs))
           + fails w p (List.enumerate 0 locs) < length locs"
proof -
  let ?K = "\<lambda>t. kept (slot_of w u p t) \<noteq> None"
  let ?F = "\<lambda>t. case t of (idx, loc) \<Rightarrow> isl (call_result w p idx loc)"
  have dis: "\<forall>t\<in>set (List.enumerate 0 locs). \<not> (?K t \<and> ?F t)"
    using kept_truthy[of w u p] by fastforce
  have mem: "(i, locs ! i) \<in> set (List.enumerate 0 locs)"
    using assms(1) by (simp add: in_tasks)
  have "\<not> ?K (i, locs ! i)"
  proof
    assume "?K (i, locs ! i)"
    then have "\<exists>res. call_result w p i (locs ! i) = Inr res \<and> truthy res"
      by (intro kept_truthy[of w u p i "locs ! i"]) simp
    then show False using assms(2,3) by simp
  qed
  moreover have "\<not> ?F (i, locs ! i)"
    using assms(2) by simp
  ultimately have "length (filter (\<lambda>t. ?K t \<or> ?F t) (List.enumerate 0 locs)) < length locs"
    using length_filter_less[OF mem, of "\<lambda>t. ?K t \<or> ?F t"] by simp
  then show ?thesis
    using filter_disjoint_add[OF dis] by (simp add: fails_def)
qed

lemma kept_nonempty:
  "d \<in> set (List.map_filter kept rs) \<Longrightarrow> d \<noteq> []"
  by (induction rs) (auto simp: kept_def split: option.splits if_splits)

lemma sub_fresh:
  "\<not> cancel_requested (submitted_job locs)" "failure (submitted_job locs) = 0"
  "completed (submitted_job locs) = 0"
  by (simp_all add: submitted_job_def)

lemma sub_proxy: "dict_get (payload (submitted_job locs)) ''proxy'' PNone = PNone"
  by (simp add: submitted_job_def dict_get_def)

lemma sub_conc: "0 < per_job_concurrency (submitted locs)"
  by (simp add: submitted_conc)

lemma tasks_zip: "List.enumerate 0 (take 20 locs) = zip [0..<min (length locs) 20] (take 20 locs)"
  by (simp add: enumerate_eq_zip)

section \<open>The outcome in terms of the calls\<close>

lemma enumerate_nth: "List.enumerate 0 l = map (\<lambda>i. (i, l ! i)) [0..<length l]"
  using enumerate_map_upt[of 0 "nth l" "length l"] by (simp add: map_nth)

lemma map_filter_cong:
  "(\<And>x. x \<in> set xs \<Longrightarrow> f x = g x) \<Longrightarrow> List.map_filter f xs = List.map_filter g xs"
  by (induction xs) (simp_all split: option.splits)

lemma fails_upt:
  "fails w p (List.enumerate 0 (take 20 locs)) =
     length (filter (\<lambda>i. isl (call_result w p i (locs ! i))) [0..<min (length locs) 20])"
proof -
  have "filter (\<lambda>i. isl (call_result w p i (take 20 locs ! i))) [0..<min (length locs) 20] =
        filter (\<lambda>i. isl (call_result w p i (locs ! i))) [0..<min (length locs) 20]"
    by (rule filter_cong[OF refl]) simp
  then show ?thesis
    by (simp add: fails_def enumerate_nth filter_map o_def)
qed

lemma recorded_upt:
  "List.map_filter (\<lambda>t. kept (slot_of w u p t)) (List.enumerate 0 (take 20 locs)) =
     List.map_filter (\<lambda>i. kept (slot u p (task_value (call_result w p i (locs ! i)))))
       [0..<min (length locs) 20]"
proof -
  have "List.map_filter (\<lambda>i. kept (slot u p (task_value (call_result w p i (take 20 locs ! i)))))
          [0..<min (length locs) 20] =
        List.map_filter (\<lambda>i. kept (slot u p (task_value (call_result w p i (locs ! i)))))
          [0..<min (length locs) 20]"
    by (rule map_filter_cong) simp
  then show ?thesis
    by (simp add: enumerate_nth map_filter_map slot_of_def)
qed

text \<open>
  What \<open>process_job\<close> leaves of a job without cancellation request, in terms of the
  calls for the first \<open>min M 20\<close> locations of the payload.
\<close>

lemma process_job_outcome:
  assumes "jobs q job_id = Some j" and "\<not> cancel_requested j"
      and "0 < per_job_concurrency q"
      and "dict_get (payload j) ''locations'' (PList []) = PList locs"
  shows "\<exists>q' j'. process_job w u t1 t2 job_id q = Some (q', None) \<and> jobs q' job_id = Some j' \<and>
           completed j' = completed j + min (length locs) 20 \<and>
           failure j' = failure j +
             length (filter (\<lambda>i. isl (run_single_location w i (locs ! i)
                                        (dict_get (payload j) ''proxy'' PNone)))
                       [0..<min (length locs) 20]) \<and>
           locations (result j') =
             List.map_filter
               (\<lambda>i. kept (slot u (payload j)
                             (task_value (run_single_location w i (locs ! i)
                                            (dict_get (payload j) ''proxy'' PNone)))))
               [0..<min (length locs) 20] \<and>
           count (result j') = length (locations (result j')) \<and>
           (status j' = DONE \<or> status j' = FAILED)"
proof -
  let ?J = "except_finally t2 (fanned w u (take 20 locs) (claimed t1 j))"
  have c: "\<not> cancel_requested (claimed t1 j)"
    using assms(2) by (simp add: claimed_simps)
  have 1: "completed ?J = completed j + min (length locs) 20"
    by (simp add: final_counters[OF c] claimed_simps)
  have 2: "failure ?J = failure j +
             length (filter (\<lambda>i. isl (run_single_location w i (locs ! i)
                                        (dict_get (payload j) ''proxy'' PNone)))
                       [0..<min (length locs) 20])"
    by (simp add: final_counters[OF c] claimed_simps fails_upt call_result_def)
  have 3: "locations (result ?J) =
             List.map_filter
               (\<lambda>i. kept (slot u (payload j)
                             (task_value (run_single_location w i (locs ! i)
                                            (dict_get (payload j) ''proxy'' PNone)))))
               [0..<min (length locs) 20]"
    by (simp add: final_counters[OF c] claimed_simps recorded_upt call_result_def)
  have 4: "count (result ?J) = length (locations (result ?J))"
    by (simp add: final_counters[OF c] length_map_filter)
  have "\<not> cancel_requested (claimed t1 j\<lparr> failure := a, completed := b \<rparr>)" for a b
    using c by simp
  then have 5: "status ?J = DONE \<or> status ?J = FAILED"
    unfolding fanned_def by (rule finalize_status)
  show ?thesis
    using 1 2 3 4 5 by (simp add: process_job_run[OF assms])
qed

lemma fanned_cong_calls:
  assumes "\<forall>i<length l. call_result w' (payload j) i (l ! i) = call_result w (payload j) i (l ! i)"
  shows "fanned w' u l j = fanned w u l j"
proof -
  have c: "call_result w' (payload j) (fst t) (snd t) = call_result w (payload j) (fst t) (snd t)"
    if "t \<in> set (List.enumerate 0 l)" for t
    using that assms by (auto simp: in_set_enumerate_eq)
  have s: "map (slot_of w' u (payload j)) (List.enumerate 0 l) =
           map (slot_of w u (payload j)) (List.enumerate 0 l)"
    by (rule map_cong[OF refl]) (simp only: slot_of_def c)
  have "filter (\<lambda>(idx, loc). isl (call_result w' (payload j) idx loc)) (List.enumerate 0 l) =
        filter (\<lambda>(idx, loc). isl (call_result w (payload j) idx loc)) (List.enumerate 0 l)"
    by (rule filter_cong[OF refl]) (use c in \<open>simp add: case_prod_unfold\<close>)
  then have f: "fails w' (payload j) (List.enumerate 0 l) = fails w (payload j) (List.enumerate 0 l)"
    by (simp only: fails_def)
  show ?thesis by (simp only: fanned_def s f)
qed

text \<open>
  A job without cancellation request whose payload has a list of locations ends
  \<^verbatim>\<open>DONE\<close> or \<^verbatim>\<open>FAILED\<close>, whatever the worker and the URL derivation do.
\<close>

lemma process_job_reaches_terminal:
  assumes "jobs q job_id = Some j" and "\<not> cancel_requested j"
      and "0 < per_job_concurrency q"
      and "dict_get (payload j) ''locations'' (PList []) = PList locs"
  shows "\<exists>q' j'. process_job w u t1 t2 job_id q = Some (q', None) \<and>
                 jobs q' job_id = Some j' \<and> (status j' = DONE \<or> status j' = FAILED)"
proof -
  let ?r = "fanned w u (take 20 locs) (claimed t1 j)"
  have "\<not> cancel_requested (claimed t1 j\<lparr> failure := a, completed := b \<rparr>)" for a b
    using assms(2) by (simp add: claimed_def)
  then have "status (except_finally t2 ?r) = DONE \<or> status (except_finally t2 ?r) = FAILED"
    unfolding fanned_def by (rule finalize_status)
  then show ?thesis
    by (simp add: process_job_run[OF assms])
qed

lemma all_fail_run:
  assumes "jobs q job_id = Some j" and "\<not> cancel_requested j" and "failure j = 0"
      and "0 < per_job_concurrency q"
      and "dict_get (payload j) ''locations'' (PList []) = PList locs"
      and "1 \<le> length locs"
      and "\<forall>i<min (length locs) 20.
             run_single_location w i (locs ! i) (dict_get (payload j) ''proxy'' PNone) = Inl (err i)"
  shows "\<exists>q' j'. process_job w u t1 t2 job_id q = Some (q', None) \<and> jobs q' job_id = Some j' \<and>
           status j' = FAILED \<and> failure j' = min (length locs) 20 \<and> count (result j') = 0 \<and>
           error j' = Some (''All '' @ str_of_nat (min (length locs) 20)
                            @ '' location(s) failed. Errors: ''
                            @ intercalate ''; ''
                                (map (\<lambda>i. ''Location analysis failed: '' @ str_exn (err i))
                                     [0..<min 3 (length locs)])) \<and>
           error j' \<noteq> Some []"
proof -
  let ?l = "take 20 locs"
  have c: "\<not> cancel_requested (claimed t1 j)" and f: "failure (claimed t1 j) = 0"
    using assms(2,3) by (simp_all add: claimed_simps)
  have n: "?l \<noteq> []" using assms(6) by auto
  have r: "call_result w (payload (claimed t1 j)) i (?l ! i) = Inl (err i)" if "i < length ?l" for i
    using assms(7) that by (simp add: call_result_def claimed_simps)
  have m: "min 3 (length ?l) = min 3 (length locs)" "length ?l = min (length locs) 20"
    by simp_all
  have F: "except_finally t2 (fanned w u ?l (claimed t1 j)) =
             except_finally t2 (claimed t1 j\<lparr> failure := length ?l,
               completed := completed (claimed t1 j) + length ?l,
               result := \<lparr> count = 0, locations = [] \<rparr>,
               error := Some (''All '' @ str_of_nat (length ?l)
                              @ '' location(s) failed. Errors: ''
                              @ intercalate ''; ''
                                  (map (\<lambda>i. ''Location analysis failed: '' @ str_exn (err i))
                                       [0..<min 3 (length ?l)])),
               status := FAILED \<rparr>, None)"
    by (simp only: all_raise[OF c f n r])
  have m: "min 3 (min (length locs) 20) = min 3 (length locs)" by simp
  show ?thesis
    unfolding process_job_run[OF assms(1,2,4,5)] F
    by (simp add: except_finally_def m)
qed

lemma count_fails_le:
  "length (filter (\<lambda>t. kept (slot_of w u p t) \<noteq> None) (List.enumerate 0 l))
     + fails w p (List.enumerate 0 l) \<le> length l"
proof -
  let ?K = "\<lambda>t. kept (slot_of w u p t) \<noteq> None"
  let ?F = "\<lambda>t. case t of (idx, loc) \<Rightarrow> isl (call_result w p idx loc)"
  have dis: "\<forall>t\<in>set (List.enumerate 0 l). \<not> (?K t \<and> ?F t)"
    using kept_truthy[of w u p] by fastforce
  have "length (filter (\<lambda>t. ?K t \<or> ?F t) (List.enumerate 0 l)) \<le> length (List.enumerate 0 l)"
    by (rule length_filter_le)
  then show ?thesis
    using filter_disjoint_add[OF dis] by (simp add: fails_def)
qed

lemma count_pos:
  assumes "i < length l" and "call_result w p i (l ! i) = Inr res" and "well_formed_result res"
  shows "0 < length (filter (\<lambda>t. kept (slot_of w u p t) \<noteq> None) (List.enumerate 0 l))"
proof -
  have "(i, l ! i) \<in> set (List.enumerate 0 l)"
    using assms(1) by (simp add: in_tasks)
  moreover have "kept (slot_of w u p (i, l ! i)) \<noteq> None"
    using assms(2,3) by (rule kept_ok)
  ultimately show ?thesis
    by (auto simp: filter_empty_conv)
qed

lemma partial_run:
  assumes "jobs q job_id = Some j" and "\<not> cancel_requested j"
      and "failure j = 0" and "completed j = 0"
      and "0 < per_job_concurrency q"
      and "dict_get (payload j) ''locations'' (PList []) = PList locs"
      and "\<exists>i<min (length locs) 20. \<exists>res.
             run_single_location w i (locs ! i) (dict_get (payload j) ''proxy'' PNone) = Inr res
             \<and> well_formed_result res"
      and "\<exists>i<min (length locs) 20. \<exists>e.
             run_single_location w i (locs ! i) (dict_get (payload j) ''proxy'' PNone) = Inl e"
  shows "\<exists>q' j'. process_job w u t1 t2 job_id q = Some (q', None) \<and> jobs q' job_id = Some j' \<and>
           status j' = DONE \<and> completed j' = min (length locs) 20 \<and>
           int (count (result j')) \<le> int (min (length locs) 20) - int (failure j') \<and>
           ((\<forall>i<min (length locs) 20.
               (\<exists>e. run_single_location w i (locs ! i) (dict_get (payload j) ''proxy'' PNone) = Inl e) \<or>
               (\<exists>res. run_single_location w i (locs ! i) (dict_get (payload j) ''proxy'' PNone) = Inr res
                      \<and> well_formed_result res)) \<longrightarrow>
            int (count (result j')) = int (min (length locs) 20) - int (failure j')) \<and>
           0 < failure j' \<and> 0 < count (result j')"
proof -
  let ?l = "take 20 locs"
  let ?p = "payload (claimed t1 j)"
  let ?J = "except_finally t2 (fanned w u ?l (claimed t1 j))"
  have c: "\<not> cancel_requested (claimed t1 j)"
    using assms(2) by (simp add: claimed_simps)
  have len: "length ?l = min (length locs) 20" by simp
  obtain i res where i: "i < length ?l" "call_result w ?p i (?l ! i) = Inr res" "well_formed_result res"
    using assms(7) by (auto simp: call_result_def claimed_simps)
  obtain k where k: "k < length ?l" "isl (call_result w ?p k (?l ! k))"
    using assms(8) by (auto simp: call_result_def claimed_simps)
  have ni: "\<not> isl (call_result w ?p i (?l ! i))" using i(2) by simp
  have cnt: "count (result ?J) =
               length (filter (\<lambda>t. kept (slot_of w u ?p t) \<noteq> None) (List.enumerate 0 ?l))"
    by (simp add: final_counters[OF c] claimed_simps)
  have fl: "failure ?J = fails w ?p (List.enumerate 0 ?l)"
    using assms(3) by (simp add: final_counters[OF c] claimed_simps)
  have le: "count (result ?J) + failure ?J \<le> length ?l"
    unfolding cnt fl by (rule count_fails_le)
  have l: "failure ?J < length ?l"
    unfolding fl by (rule fails_less[OF i(1) ni])
  have g: "0 < failure ?J"
    unfolding fl by (rule fails_pos[OF k])
  have cp: "0 < count (result ?J)"
    unfolding cnt by (rule count_pos[OF i])
  have d: "status ?J = DONE"
    using l by (intro final_done[OF c]) (auto simp: final_counters[OF c] min_def)
  have m: "completed ?J = length ?l"
    using assms(4) by (simp add: final_counters[OF c] claimed_simps)
  have eq: "count (result ?J) + failure ?J = length ?l"
    if "\<forall>i<min (length locs) 20.
          (\<exists>e. run_single_location w i (locs ! i) (dict_get (payload j) ''proxy'' PNone) = Inl e) \<or>
          (\<exists>res. run_single_location w i (locs ! i) (dict_get (payload j) ''proxy'' PNone) = Inr res
                 \<and> well_formed_result res)"
  proof -
    have a: "\<forall>i<length ?l. (\<exists>e. call_result w ?p i (?l ! i) = Inl e) \<or>
               (\<exists>res. call_result w ?p i (?l ! i) = Inr res \<and> well_formed_result res)"
      using that by (simp add: call_result_def claimed_simps)
    show ?thesis
      unfolding cnt fl by (rule count_plus_fails[OF a])
  qed
  have le': "int (count (result ?J)) \<le> int (min (length locs) 20) - int (failure ?J)"
    using le len by linarith
  have eq': "int (count (result ?J)) = int (min (length locs) 20) - int (failure ?J)"
    if "\<forall>i<min (length locs) 20.
          (\<exists>e. run_single_location w i (locs ! i) (dict_get (payload j) ''proxy'' PNone) = Inl e) \<or>
          (\<exists>res. run_single_location w i (locs ! i) (dict_get (payload j) ''proxy'' PNone) = Inr res
                 \<and> well_formed_result res)"
    using eq[OF that] len by linarith
  have m': "completed ?J = min (length locs) 20" using m len by simp
  show ?thesis
    unfolding process_job_run[OF assms(1,2,5,6)]
    using d m' le' eq' g cp by simp
qed

section \<open>A job cancelled before it is claimed\<close>

lemma create_tasks_cancelled: "cancel_requested j \<Longrightarrow> create_tasks j tasks = []"
  by (cases tasks) auto

lemma process_job_cancelled:
  assumes "jobs q job_id = Some j" and "cancel_requested j" and "0 \<le> per_job_concurrency q"
      and "dict_get (payload j) ''locations'' (PList []) = PList locs"
  shows "process_job w u t1 t2 job_id q =
           Some (q\<lparr> jobs := (jobs q)(job_id := Some (j\<lparr> status := RUNNING, updated_at := t2 \<rparr>)) \<rparr>,
                 None)"
proof -
  let ?j1 = "j\<lparr> status := RUNNING, updated_at := t1 \<rparr>"
  have c: "cancel_requested ?j1" using assms(2) by simp
  have "fan_out w u (per_job_concurrency q) (take 20 locs) ?j1 = Some (?j1, None)"
    using assms(3) c by (simp add: fan_out_def create_tasks_cancelled[OF c] finalize_def)
  then show ?thesis
    using assms(1,4) by (simp add: process_job_def except_finally_def)
qed

section \<open>The claims\<close>

text \<open>
  C1. The status does not only move forward. A job is submitted and cancelled before a
  worker takes it from the admission queue: \<^verbatim>\<open>cancel\<close> makes it \<^verbatim>\<open>CANCELED\<close>. The worker
  that then claims it (line 135 has no test of the status or of the request) makes it
  \<^verbatim>\<open>RUNNING\<close> again, creates no task, skips the decision of the status because
  cancellation is requested, and returns: the job stays \<^verbatim>\<open>RUNNING\<close>, with
  \<^verbatim>\<open>cancel_requested\<close> set. Lemma \<open>process_job_cancelled\<close> says so of every job
  whose cancellation was requested before the claim; the theorem runs one such job.
\<close>

theorem claim_after_cancel_runs_again:
  "fst (cancel 1 ''ab12'' (submitted [loc1])) \<noteq> None \<and>
   map_option status (jobs (snd (cancel 1 ''ab12'' (submitted [loc1]))) ''ab12'') = Some CANCELED \<and>
   (\<exists>q'. worker_turn w_ok no_url 2 3 (snd (cancel 1 ''ab12'' (submitted [loc1]))) = Some q' \<and>
         map_option status (jobs q' ''ab12'') = Some RUNNING \<and>
         map_option cancel_requested (jobs q' ''ab12'') = Some True)"
  by (simp add: submitted_def submit_def q0_def cancel_def worker_turn_def process_job_def
        dict_get_def loc1_def fan_out_def finalize_def except_finally_def Let_def)

text \<open>
  C2. Not every job that a worker processes ends \<^verbatim>\<open>DONE\<close> or \<^verbatim>\<open>FAILED\<close>. The claim of
  the job (line 135) and the slice of line 138 stand before the \<^verbatim>\<open>try\<close>. For a payload
  whose \<^verbatim>\<open>locations\<close> is \<^verbatim>\<open>None\<close> the slice raises a \<^verbatim>\<open>TypeError\<close>; no handler of
  \<^verbatim>\<open>_process_job\<close> runs, the exception leaves the call, and the worker loop logs it and
  goes on. The job, for which no cancellation was requested, stays \<^verbatim>\<open>RUNNING\<close>; its
  identifier has left the admission queue, so the next turn of the worker does nothing.
  Lemma \<open>process_job_reaches_terminal\<close> shows that a job whose \<^verbatim>\<open>locations\<close> is a list
  does end \<^verbatim>\<open>DONE\<close> or \<^verbatim>\<open>FAILED\<close>.
\<close>

theorem slice_raises_before_try:
  "cancel_requested (the (jobs submitted_none ''ab12'')) = False \<and>
   0 < per_job_concurrency submitted_none \<and>
   (\<exists>q'. process_job w_ok no_url 1 2 ''ab12'' submitted_none =
           Some (q', Some (TypeError (quoted ''NoneType'' @ '' object is not subscriptable''))) \<and>
         map_option status (jobs q' ''ab12'') = Some RUNNING \<and>
         map_option cancel_requested (jobs q' ''ab12'') = Some False) \<and>
   (\<exists>q'. worker_turn w_ok no_url 1 2 submitted_none = Some q' \<and> queue q' = [] \<and>
         map_option status (jobs q' ''ab12'') = Some RUNNING \<and>
         worker_turn w_ok no_url 3 4 q' = Some q')"
  by (simp add: submitted_none_def submit_def q0_def worker_turn_def process_job_def
        dict_get_def Let_def)

text \<open>
  C3, as amended. A job of N locations, N \<ge> 1, without cancellation request, for which
  every call of the worker made for it raises: after \<^verbatim>\<open>_process_job\<close> the status is
  \<^verbatim>\<open>FAILED\<close>, \<open>failure\<close> is \<open>min N 20\<close> (it is N up to 20 locations), the count of
  results is 0, and the error text is \<^verbatim>\<open>All n location(s) failed. Errors: \<close> with
  \<open>n = min N 20\<close>, followed by the messages of the first three failed locations (of all
  of them when N is less than 3), joined by a semicolon and a space. The record is a fresh
  one (\<open>failure\<close> is 0, as after \<open>submit\<close>). As the claim is worded, with \<open>failure\<close>
  equal to N for every N, it fails at 21 locations, where \<open>failure\<close> is 20 (the
  third of the theorems below).
\<close>

theorem all_locations_fail:
  assumes "jobs q job_id = Some j" and "\<not> cancel_requested j" and "failure j = 0"
      and "0 < per_job_concurrency q"
      and "dict_get (payload j) ''locations'' (PList []) = PList locs"
      and "1 \<le> length locs"
      and "\<forall>i<min (length locs) 20.
             run_single_location w i (locs ! i) (dict_get (payload j) ''proxy'' PNone) = Inl (err i)"
  shows "\<exists>q' j'. process_job w u t1 t2 job_id q = Some (q', None) \<and> jobs q' job_id = Some j' \<and>
           status j' = FAILED \<and> failure j' = min (length locs) 20 \<and> count (result j') = 0 \<and>
           error j' = Some (''All '' @ str_of_nat (min (length locs) 20)
                            @ '' location(s) failed. Errors: ''
                            @ intercalate ''; ''
                                (map (\<lambda>i. ''Location analysis failed: '' @ str_exn (err i))
                                     [0..<min 3 (length locs)])) \<and>
           error j' \<noteq> Some []"
  using assms by (rule all_fail_run)

theorem all_locations_fail_witness:
  "run_single_location w_raise 0 loc1 PNone = Inl (Raised ''boom'') \<and>
   run_single_location w_raise 1 loc2 PNone = Inl (Raised ''boom'') \<and>
   (\<exists>q' j'. process_job w_raise no_url 1 2 ''ab12'' (submitted [loc1, loc2]) = Some (q', None) \<and>
      jobs q' ''ab12'' = Some j' \<and> status j' = FAILED \<and> failure j' = 2 \<and>
      count (result j') = 0 \<and>
      error j' = Some (''All 2 location(s) failed. Errors: '' @
                       ''Location analysis failed: boom; Location analysis failed: boom''))"
proof -
  let ?locs = "[loc1, loc2]"
  have r0: "run_single_location w_raise 0 loc1 PNone = Inl (Raised ''boom'')"
    and r1: "run_single_location w_raise 1 loc2 PNone = Inl (Raised ''boom'')"
    by (simp_all add: run_single_location_def w_raise_def loc1_def loc2_def)
  have h: "\<forall>i<min (length ?locs) 20.
             run_single_location w_raise i (?locs ! i)
               (dict_get (payload (submitted_job ?locs)) ''proxy'' PNone) = Inl ((\<lambda>_. Raised ''boom'') i)"
    using r0 r1 by (simp add: sub_proxy less_Suc_eq)
  have n: "min 3 (length ?locs) = 2" "min (length ?locs) 20 = 2" "[0..<2] = [0, Suc 0]"
          "str_of_nat (Suc (Suc 0)) = ''2''"
    by (simp_all add: upt_rec str_of_nat.simps)
  show ?thesis
    using all_locations_fail[OF jobs_submitted sub_fresh(1,2) sub_conc submitted_locations _ h,
            of no_url 1 2] r0 r1
    by (auto simp: n numeral_2_eq_2)
qed

theorem all_locations_fail_counterexample:
  "length (replicate 21 loc1) = 21 \<and>
   (\<forall>i. run_single_location w_raise i loc1 PNone = Inl (Raised ''boom'')) \<and>
   (\<exists>q' j'. process_job w_raise no_url 1 2 ''ab12'' (submitted (replicate 21 loc1)) = Some (q', None) \<and>
      jobs q' ''ab12'' = Some j' \<and> status j' = FAILED \<and> failure j' = 20 \<and>
      failure j' \<noteq> length (replicate 21 loc1))"
proof -
  let ?locs = "replicate 21 loc1"
  have r: "run_single_location w_raise i loc1 PNone = Inl (Raised ''boom'')" for i
    by (simp add: run_single_location_def w_raise_def loc1_def)
  have h: "\<forall>i<min (length ?locs) 20.
             run_single_location w_raise i (?locs ! i)
               (dict_get (payload (submitted_job ?locs)) ''proxy'' PNone) = Inl ((\<lambda>_. Raised ''boom'') i)"
    using r by (simp add: sub_proxy)
  from all_fail_run[OF jobs_submitted[of ?locs] sub_fresh(1,2) sub_conc submitted_locations _ h,
         of no_url 1 2]
  obtain q' j' where
    p: "process_job w_raise no_url 1 2 ''ab12'' (submitted ?locs) = Some (q', None)"
       "jobs q' ''ab12'' = Some j'" "status j' = FAILED" "failure j' = min (length ?locs) 20"
    by auto
  have "\<exists>q' j'. process_job w_raise no_url 1 2 ''ab12'' (submitted ?locs) = Some (q', None) \<and>
      jobs q' ''ab12'' = Some j' \<and> status j' = FAILED \<and> failure j' = 20 \<and>
      failure j' \<noteq> length ?locs"
    using p by simp
  then show ?thesis using r by simp
qed

text \<open>
  C4. A job of N locations, 0 \<le> N \<le> 20, without cancellation request, for which every call
  of the worker returns a well-formed result record: after \<^verbatim>\<open>_process_job\<close> the status is
  \<^verbatim>\<open>DONE\<close>, \<open>completed\<close> is N, the count of results is N and \<open>failure\<close> is 0.
\<close>

theorem all_locations_succeed:
  assumes "jobs q job_id = Some j" and "\<not> cancel_requested j"
      and "failure j = 0" and "completed j = 0"
      and "0 < per_job_concurrency q"
      and "dict_get (payload j) ''locations'' (PList []) = PList locs"
      and "length locs \<le> 20"
      and "\<forall>i<length locs. \<exists>res.
             run_single_location w i (locs ! i) (dict_get (payload j) ''proxy'' PNone) = Inr res
             \<and> well_formed_result res"
  shows "\<exists>q' j'. process_job w u t1 t2 job_id q = Some (q', None) \<and> jobs q' job_id = Some j' \<and>
           status j' = DONE \<and> completed j' = length locs \<and>
           count (result j') = length locs \<and> failure j' = 0"
proof -
  let ?p = "payload (claimed t1 j)"
  let ?J = "except_finally t2 (fanned w u locs (claimed t1 j))"
  have c: "\<not> cancel_requested (claimed t1 j)"
    using assms(2) by (simp add: claimed_simps)
  have r: "\<not> isl (call_result w ?p i (locs ! i))" if "i < length locs" for i
    using assms(8) that by (auto simp: call_result_def claimed_simps)
  have a: "\<forall>i<length locs. (\<exists>e. call_result w ?p i (locs ! i) = Inl e) \<or>
             (\<exists>res. call_result w ?p i (locs ! i) = Inr res \<and> well_formed_result res)"
    using assms(8) by (simp add: call_result_def claimed_simps)
  have z: "fails w ?p (List.enumerate 0 locs) = 0"
    using r by (simp add: fails_def tasks_none)
  have f: "failure ?J = 0"
    using z assms(3) by (simp add: final_counters[OF c] claimed_simps)
  have s: "count (result ?J) = length locs"
    using count_plus_fails[OF a, of u] z by (simp add: final_counters[OF c])
  have d: "status ?J = DONE"
    using z assms(3) by (intro final_done[OF c]) (auto simp: claimed_simps)
  have m: "completed ?J = length locs"
    using assms(4) by (simp add: final_counters[OF c] claimed_simps)
  show ?thesis
    using assms(7) f s d m
    by (simp add: process_job_run[OF assms(1,2,5,6)])
qed

theorem all_locations_succeed_witness:
  "run_single_location w_ok 0 loc1 PNone = Inr (PDict [(''score'', PInt 50)]) \<and>
   run_single_location w_ok 1 loc2 PNone = Inr (PDict [(''score'', PInt 50)]) \<and>
   well_formed_result (PDict [(''score'', PInt 50)]) \<and>
   (\<exists>q' j'. process_job w_ok no_url 1 2 ''ab12'' (submitted [loc1, loc2]) = Some (q', None) \<and>
      jobs q' ''ab12'' = Some j' \<and> status j' = DONE \<and> completed j' = 2 \<and>
      count (result j') = 2 \<and> failure j' = 0)"
proof -
  let ?locs = "[loc1, loc2]"
  have r0: "run_single_location w_ok 0 loc1 PNone = Inr (PDict [(''score'', PInt 50)])"
    and r1: "run_single_location w_ok 1 loc2 PNone = Inr (PDict [(''score'', PInt 50)])"
    by (simp_all add: run_single_location_def w_ok_def loc1_def loc2_def)
  have wf: "well_formed_result (PDict [(''score'', PInt 50)])"
    by (simp add: well_formed_result_def dict_has_def)
  have h: "\<forall>i<length ?locs. \<exists>res.
             run_single_location w_ok i (?locs ! i)
               (dict_get (payload (submitted_job ?locs)) ''proxy'' PNone) = Inr res
             \<and> well_formed_result res"
    using r0 r1 wf by (simp add: sub_proxy less_Suc_eq)
  show ?thesis
    using all_locations_succeed[OF jobs_submitted sub_fresh sub_conc submitted_locations _ h,
            of no_url 1 2] r0 r1 wf
    by (auto simp: numeral_2_eq_2)
qed

text \<open>
  C5, as amended. A job of N locations without cancellation request, of which the first
  \<open>n = min N 20\<close> are processed, where at least one call returns a well-formed result
  record and at least one raises: after \<^verbatim>\<open>_process_job\<close> the status is \<^verbatim>\<open>DONE\<close>, the
  count of results is at most n minus \<open>failure\<close>, and it is n minus \<open>failure\<close> when
  every call either raises or returns a well-formed record. As the claim is worded it
  fails for three locations of which one succeeds, one raises and one returns
  \<^verbatim>\<open>None\<close> (count 1, \<open>failure\<close> 1, N 3), and for 21 locations (count plus
  \<open>failure\<close> is 20): the third theorem below.
\<close>

theorem partial_success_is_done:
  assumes "jobs q job_id = Some j" and "\<not> cancel_requested j"
      and "failure j = 0" and "completed j = 0"
      and "0 < per_job_concurrency q"
      and "dict_get (payload j) ''locations'' (PList []) = PList locs"
      and "\<exists>i<min (length locs) 20. \<exists>res.
             run_single_location w i (locs ! i) (dict_get (payload j) ''proxy'' PNone) = Inr res
             \<and> well_formed_result res"
      and "\<exists>i<min (length locs) 20. \<exists>e.
             run_single_location w i (locs ! i) (dict_get (payload j) ''proxy'' PNone) = Inl e"
  shows "\<exists>q' j'. process_job w u t1 t2 job_id q = Some (q', None) \<and> jobs q' job_id = Some j' \<and>
           status j' = DONE \<and> completed j' = min (length locs) 20 \<and>
           int (count (result j')) \<le> int (min (length locs) 20) - int (failure j') \<and>
           ((\<forall>i<min (length locs) 20.
               (\<exists>e. run_single_location w i (locs ! i) (dict_get (payload j) ''proxy'' PNone) = Inl e) \<or>
               (\<exists>res. run_single_location w i (locs ! i) (dict_get (payload j) ''proxy'' PNone) = Inr res
                      \<and> well_formed_result res)) \<longrightarrow>
            int (count (result j')) = int (min (length locs) 20) - int (failure j')) \<and>
           0 < failure j' \<and> 0 < count (result j')"
  using assms by (rule partial_run)

theorem partial_success_is_done_witness:
  "run_single_location w_second_raises 0 loc1 PNone = Inr (PDict [(''score'', PInt 50)]) \<and>
   run_single_location w_second_raises 1 loc2 PNone = Inl (Raised ''boom'') \<and>
   run_single_location w_second_raises 2 loc1 PNone = Inr (PDict [(''score'', PInt 50)]) \<and>
   well_formed_result (PDict [(''score'', PInt 50)]) \<and>
   (\<exists>q' j'. process_job w_second_raises no_url 1 2 ''ab12'' (submitted [loc1, loc2, loc1])
               = Some (q', None) \<and>
      jobs q' ''ab12'' = Some j' \<and> status j' = DONE \<and>
      int (count (result j')) = 3 - int (failure j') \<and> completed j' = 3)"
proof -
  let ?locs = "[loc1, loc2, loc1]"
  have r0: "run_single_location w_second_raises 0 loc1 PNone = Inr (PDict [(''score'', PInt 50)])"
    and r1: "run_single_location w_second_raises 1 loc2 PNone = Inl (Raised ''boom'')"
    and r2: "run_single_location w_second_raises 2 loc1 PNone = Inr (PDict [(''score'', PInt 50)])"
    by (simp_all add: run_single_location_def w_second_raises_def loc1_def loc2_def)
  have wf: "well_formed_result (PDict [(''score'', PInt 50)])"
    by (simp add: well_formed_result_def dict_has_def)
  have n: "min (length ?locs) 20 = 3" by simp
  have h: "\<forall>i<min (length ?locs) 20.
             (\<exists>e. run_single_location w_second_raises i (?locs ! i)
                    (dict_get (payload (submitted_job ?locs)) ''proxy'' PNone) = Inl e) \<or>
             (\<exists>res. run_single_location w_second_raises i (?locs ! i)
                    (dict_get (payload (submitted_job ?locs)) ''proxy'' PNone) = Inr res
                    \<and> well_formed_result res)"
    using r0 r1 r2 wf by (simp add: sub_proxy less_Suc_eq numeral_2_eq_2 numeral_3_eq_3)
  have s: "\<exists>i<min (length ?locs) 20. \<exists>res.
             run_single_location w_second_raises i (?locs ! i)
               (dict_get (payload (submitted_job ?locs)) ''proxy'' PNone) = Inr res
             \<and> well_formed_result res"
    using r0 wf by (intro exI[of _ 0]) (simp add: sub_proxy)
  have f: "\<exists>i<min (length ?locs) 20. \<exists>e.
             run_single_location w_second_raises i (?locs ! i)
               (dict_get (payload (submitted_job ?locs)) ''proxy'' PNone) = Inl e"
    using r1 by (intro exI[of _ 1]) (simp add: sub_proxy)
  from partial_success_is_done[OF jobs_submitted[of ?locs] sub_fresh sub_conc submitted_locations s f,
         of no_url 1 2] h
  obtain q' j' where
    p: "process_job w_second_raises no_url 1 2 ''ab12'' (submitted ?locs) = Some (q', None)"
       "jobs q' ''ab12'' = Some j'" "status j' = DONE"
       "completed j' = min (length ?locs) 20"
       "int (count (result j')) = int (min (length ?locs) 20) - int (failure j')"
    by blast
  have "\<exists>q' j'. process_job w_second_raises no_url 1 2 ''ab12'' (submitted ?locs) = Some (q', None) \<and>
      jobs q' ''ab12'' = Some j' \<and> status j' = DONE \<and>
      int (count (result j')) = 3 - int (failure j') \<and> completed j' = 3"
    using p by (simp add: n)
  then show ?thesis using r0 r1 r2 wf by simp
qed

theorem partial_success_counterexample:
  "run_single_location w_mixed 0 loc1 PNone = Inr (PDict [(''score'', PInt 50)]) \<and>
   well_formed_result (PDict [(''score'', PInt 50)]) \<and>
   run_single_location w_mixed 1 loc2 PNone = Inl (Raised ''boom'') \<and>
   run_single_location w_mixed 2 loc1 PNone = Inr PNone \<and>
   (\<exists>q' j'. process_job w_mixed no_url 1 2 ''ab12'' (submitted [loc1, loc2, loc1]) = Some (q', None) \<and>
      jobs q' ''ab12'' = Some j' \<and> status j' = DONE \<and> cancel_requested j' = False \<and>
      count (result j') = 1 \<and> failure j' = 1 \<and>
      int (count (result j')) \<noteq> int (length [loc1, loc2, loc1]) - int (failure j')) \<and>
   (\<exists>q' j'. process_job w_second_raises no_url 1 2 ''ab12'' (submitted (replicate 21 loc1))
               = Some (q', None) \<and>
      jobs q' ''ab12'' = Some j' \<and> status j' = DONE \<and>
      int (count (result j')) = 20 - int (failure j') \<and>
      int (count (result j')) \<noteq> int (length (replicate 21 loc1)) - int (failure j'))"
proof -
  have r0: "run_single_location w_mixed 0 loc1 PNone = Inr (PDict [(''score'', PInt 50)])"
    and r1: "run_single_location w_mixed 1 loc2 PNone = Inl (Raised ''boom'')"
    and r2: "run_single_location w_mixed 2 loc1 PNone = Inr PNone"
    by (simp_all add: run_single_location_def w_mixed_def loc1_def loc2_def)
  have wf: "well_formed_result (PDict [(''score'', PInt 50)])"
    by (simp add: well_formed_result_def dict_has_def)
  have a: "\<exists>q' j'. process_job w_mixed no_url 1 2 ''ab12'' (submitted [loc1, loc2, loc1]) = Some (q', None) \<and>
      jobs q' ''ab12'' = Some j' \<and> status j' = DONE \<and> cancel_requested j' = False \<and>
      count (result j') = 1 \<and> failure j' = 1 \<and>
      int (count (result j')) \<noteq> int (length [loc1, loc2, loc1]) - int (failure j')"
    by (simp add: submitted_def submit_def q0_def process_job_def dict_get_def fan_out_def
          finalize_def except_finally_def Let_def loc1_def loc2_def w_mixed_def
          run_single_location_def process_location_def store_result_def py_or_def kept_def
          error_message_def dict_has_def)
  let ?locs = "replicate 21 loc1"
  have ok: "run_single_location w_second_raises i loc1 PNone =
              (if i = 1 then Inl (Raised ''boom'') else Inr (PDict [(''score'', PInt 50)]))" for i
    by (simp add: run_single_location_def w_second_raises_def loc1_def)
  have h: "\<forall>i<min (length ?locs) 20.
             (\<exists>e. run_single_location w_second_raises i (?locs ! i)
                    (dict_get (payload (submitted_job ?locs)) ''proxy'' PNone) = Inl e) \<or>
             (\<exists>res. run_single_location w_second_raises i (?locs ! i)
                    (dict_get (payload (submitted_job ?locs)) ''proxy'' PNone) = Inr res
                    \<and> well_formed_result res)"
    using wf by (simp add: sub_proxy ok)
  have s: "\<exists>i<min (length ?locs) 20. \<exists>res.
             run_single_location w_second_raises i (?locs ! i)
               (dict_get (payload (submitted_job ?locs)) ''proxy'' PNone) = Inr res
             \<and> well_formed_result res"
    using wf by (intro exI[of _ 0]) (simp add: sub_proxy ok)
  have f: "\<exists>i<min (length ?locs) 20. \<exists>e.
             run_single_location w_second_raises i (?locs ! i)
               (dict_get (payload (submitted_job ?locs)) ''proxy'' PNone) = Inl e"
    by (intro exI[of _ 1]) (simp add: sub_proxy ok)
  from partial_run[OF jobs_submitted[of ?locs] sub_fresh sub_conc submitted_locations s f,
         of no_url 1 2] h
  obtain q' j' where
    p: "process_job w_second_raises no_url 1 2 ''ab12'' (submitted ?locs) = Some (q', None)"
       "jobs q' ''ab12'' = Some j'" "status j' = DONE"
       "int (count (result j')) = int (min (length ?locs) 20) - int (failure j')"
    by blast
  have b: "\<exists>q' j'. process_job w_second_raises no_url 1 2 ''ab12'' (submitted ?locs)
               = Some (q', None) \<and>
      jobs q' ''ab12'' = Some j' \<and> status j' = DONE \<and>
      int (count (result j')) = 20 - int (failure j') \<and>
      int (count (result j')) \<noteq> int (length ?locs) - int (failure j')"
    using p by simp
  show ?thesis using r0 r1 r2 wf a b by blast
qed

text \<open>
  C6. A job whose payload has no location (an empty list, or no \<^verbatim>\<open>locations\<close> at all),
  without cancellation request: after \<^verbatim>\<open>_process_job\<close> the status is \<^verbatim>\<open>DONE\<close>, not
  \<^verbatim>\<open>FAILED\<close>, and \<open>completed\<close>, \<open>failure\<close> and the count of results are 0.
\<close>

theorem zero_locations_done:
  assumes "jobs q job_id = Some j" and "\<not> cancel_requested j"
      and "failure j = 0" and "completed j = 0"
      and "0 < per_job_concurrency q"
      and "dict_get (payload j) ''locations'' (PList []) = PList []"
  shows "\<exists>q' j'. process_job w u t1 t2 job_id q = Some (q', None) \<and> jobs q' job_id = Some j' \<and>
           status j' = DONE \<and> status j' \<noteq> FAILED \<and> completed j' = 0 \<and> failure j' = 0 \<and>
           count (result j') = 0"
proof -
  let ?J = "except_finally t2 (fanned w u [] (claimed t1 j))"
  have c: "\<not> cancel_requested (claimed t1 j)"
    using assms(2) by (simp add: claimed_simps)
  have d: "status ?J = DONE"
    by (intro final_done[OF c]) simp
  show ?thesis
    using assms(3,4) d process_job_run[OF assms(1,2,5,6), of w u t1 t2]
    by (simp add: final_counters[OF c] claimed_simps fails_def)
qed

theorem zero_locations_done_witness:
  "dict_get (payload (submitted_job [])) ''locations'' (PList []) = PList [] \<and>
   (\<exists>q' j'. process_job w_raise no_url 1 2 ''ab12'' (submitted []) = Some (q', None) \<and>
      jobs q' ''ab12'' = Some j' \<and> status j' = DONE \<and> completed j' = 0 \<and> failure j' = 0 \<and>
      count (result j') = 0)"
  using zero_locations_done[OF jobs_submitted sub_fresh sub_conc submitted_locations,
          of w_raise no_url 1 2] submitted_locations[of "[]"]
  by auto

text \<open>
  C7. \<^verbatim>\<open>cancel\<close> returns nothing for an unknown identifier and changes nothing; for a job
  that is \<^verbatim>\<open>DONE\<close>, \<^verbatim>\<open>FAILED\<close> or \<^verbatim>\<open>CANCELED\<close> it returns the record as it is and
  changes nothing; for a job that is \<^verbatim>\<open>PENDING\<close> or \<^verbatim>\<open>RUNNING\<close> it sets
  \<^verbatim>\<open>cancel_requested\<close>, makes the status \<^verbatim>\<open>CANCELED\<close>, refreshes \<^verbatim>\<open>updated_at\<close>, stores
  and returns that record; no other field and no other job changes.
\<close>

theorem cancel_cases:
  "(jobs q job_id = None \<longrightarrow> cancel now job_id q = (None, q)) \<and>
   (\<forall>j. jobs q job_id = Some j \<and> (status j = DONE \<or> status j = FAILED \<or> status j = CANCELED)
        \<longrightarrow> cancel now job_id q = (Some j, q)) \<and>
   (\<forall>j. jobs q job_id = Some j \<and> (status j = PENDING \<or> status j = RUNNING)
        \<longrightarrow> cancel now job_id q =
              (Some (j\<lparr> cancel_requested := True, status := CANCELED, updated_at := now \<rparr>),
               q\<lparr> jobs := (jobs q)(job_id :=
                     Some (j\<lparr> cancel_requested := True, status := CANCELED, updated_at := now \<rparr>)) \<rparr>))"
  by (auto simp: cancel_def Let_def)

theorem cancel_cases_witness:
  "jobs q0 ''ab12'' = None \<and> cancel 5 ''ab12'' q0 = (None, q0) \<and>
   jobs (submitted [loc1]) ''ab12'' = Some (submitted_job [loc1]) \<and>
   status (submitted_job [loc1]) = PENDING \<and>
   fst (cancel 5 ''ab12'' (submitted [loc1])) =
     Some (submitted_job [loc1]\<lparr> cancel_requested := True, status := CANCELED, updated_at := 5 \<rparr>) \<and>
   jobs (snd (cancel 5 ''ab12'' (submitted [loc1]))) ''ab12'' =
     Some (submitted_job [loc1]\<lparr> cancel_requested := True, status := CANCELED, updated_at := 5 \<rparr>) \<and>
   status (submitted_job [loc1]\<lparr> cancel_requested := True, status := CANCELED, updated_at := 5 \<rparr>) = CANCELED \<and>
   cancel 9 ''ab12'' (snd (cancel 5 ''ab12'' (submitted [loc1]))) =
     (Some (submitted_job [loc1]\<lparr> cancel_requested := True, status := CANCELED, updated_at := 5 \<rparr>),
      snd (cancel 5 ''ab12'' (submitted [loc1])))"
proof -
  let ?c = "submitted_job [loc1]\<lparr> cancel_requested := True, status := CANCELED, updated_at := 5 \<rparr>"
  have h1: "jobs q0 ''ab12'' = None" by (simp add: q0_def)
  have h2: "jobs (submitted [loc1]) ''ab12'' = Some (submitted_job [loc1])" by (rule jobs_submitted)
  have h3: "status (submitted_job [loc1]) = PENDING" by (simp add: submitted_job_def)
  have c1: "cancel 5 ''ab12'' q0 = (None, q0)"
    using h1 cancel_cases[of q0 "''ab12''" 5] by blast
  have c2: "cancel 5 ''ab12'' (submitted [loc1]) =
              (Some ?c, submitted [loc1]\<lparr> jobs := (jobs (submitted [loc1]))(''ab12'' := Some ?c) \<rparr>)"
    using h2 h3 cancel_cases[of "submitted [loc1]" "''ab12''" 5] by blast
  have h4: "jobs (snd (cancel 5 ''ab12'' (submitted [loc1]))) ''ab12'' = Some ?c"
    by (simp add: c2)
  have h5: "status ?c = CANCELED" by simp
  have c3: "cancel 9 ''ab12'' (snd (cancel 5 ''ab12'' (submitted [loc1]))) =
              (Some ?c, snd (cancel 5 ''ab12'' (submitted [loc1])))"
    using h4 h5 cancel_cases[of "snd (cancel 5 ''ab12'' (submitted [loc1]))" "''ab12''" 9] by blast
  show ?thesis
    using h1 h2 h3 h4 h5 c1 c2 c3 by simp
qed

text \<open>
  C8. Of a payload with M locations the controller processes the first \<open>n = min M 20\<close>,
  in the order of the payload, and no other. Line 138 keeps the first 20 and the tasks are
  those locations with their indices. When \<^verbatim>\<open>_process_job\<close> returns, with the job
  \<^verbatim>\<open>DONE\<close> or \<^verbatim>\<open>FAILED\<close>, \<open>completed\<close> is n; \<open>failure\<close> is the number of indices
  below n at which the call for that location of the payload raises; the recorded results
  are, in the order of the indices below n, what the calls for those locations return
  (with the URL added), those kept that are not empty and have no key \<^verbatim>\<open>error\<close>. The
  worker is called for nothing else: a worker that agrees with \<open>w\<close> on the calls for the
  first n locations gives the same queue, whatever it does elsewhere.
\<close>

theorem first_twenty_processed:
  assumes "jobs q job_id = Some j" and "\<not> cancel_requested j"
      and "failure j = 0" and "completed j = 0"
      and "0 < per_job_concurrency q"
      and "dict_get (payload j) ''locations'' (PList []) = PList locs"
  shows "py_slice20 (dict_get (payload j) ''locations'' (PList [])) = Inr (take 20 locs) \<and>
         create_tasks (j\<lparr> status := RUNNING, updated_at := t1 \<rparr>) (List.enumerate 0 (take 20 locs))
           = zip [0..<min (length locs) 20] (take 20 locs) \<and>
         (\<exists>q' j'. process_job w u t1 t2 job_id q = Some (q', None) \<and> jobs q' job_id = Some j' \<and>
            completed j' = min (length locs) 20 \<and>
            failure j' =
              length (filter (\<lambda>i. isl (run_single_location w i (locs ! i)
                                         (dict_get (payload j) ''proxy'' PNone)))
                        [0..<min (length locs) 20]) \<and>
            locations (result j') =
              List.map_filter
                (\<lambda>i. kept (slot u (payload j)
                              (task_value (run_single_location w i (locs ! i)
                                             (dict_get (payload j) ''proxy'' PNone)))))
                [0..<min (length locs) 20] \<and>
            count (result j') = length (locations (result j')) \<and>
            (status j' = DONE \<or> status j' = FAILED)) \<and>
         (\<forall>w'. (\<forall>i<min (length locs) 20.
                   run_single_location w' i (locs ! i) (dict_get (payload j) ''proxy'' PNone) =
                   run_single_location w i (locs ! i) (dict_get (payload j) ''proxy'' PNone)) \<longrightarrow>
               process_job w' u t1 t2 job_id q = process_job w u t1 t2 job_id q)"
proof -
  let ?l = "take 20 locs"
  have 1: "py_slice20 (dict_get (payload j) ''locations'' (PList [])) = Inr ?l"
    by (simp add: assms(6))
  have 2: "create_tasks (j\<lparr> status := RUNNING, updated_at := t1 \<rparr>) (List.enumerate 0 ?l)
             = zip [0..<min (length locs) 20] ?l"
  proof -
    have "\<not> cancel_requested (j\<lparr> status := RUNNING, updated_at := t1 \<rparr>)"
      using assms(2) by simp
    then have "create_tasks (j\<lparr> status := RUNNING, updated_at := t1 \<rparr>) (List.enumerate 0 ?l)
                 = List.enumerate 0 ?l"
      by (rule create_tasks_all)
    then show ?thesis by (simp only: tasks_zip)
  qed
  note 3 = process_job_outcome[OF assms(1,2,5,6), of w u t1 t2, unfolded assms(3,4) add_0]
  have 4: "process_job w' u t1 t2 job_id q = process_job w u t1 t2 job_id q"
    if h: "\<forall>i<min (length locs) 20.
             run_single_location w' i (locs ! i) (dict_get (payload j) ''proxy'' PNone) =
             run_single_location w i (locs ! i) (dict_get (payload j) ''proxy'' PNone)" for w'
  proof -
    have "fanned w' u ?l (claimed t1 j) = fanned w u ?l (claimed t1 j)"
      using h by (intro fanned_cong_calls) (simp add: call_result_def claimed_simps)
    then show ?thesis
      by (simp only: process_job_run[OF assms(1,2,5,6)])
  qed
  show ?thesis
    apply (intro conjI allI impI)
       apply (rule 1)
      apply (rule 2)
     apply (rule 3)
    apply (erule 4)
    done
qed

theorem first_twenty_processed_witness:
  "length (replicate 21 loc1) = 21 \<and>
   run_single_location w_beyond 20 loc1 PNone = Inl (Raised ''boom'') \<and>
   (\<exists>q' j'. process_job w_beyond no_url 1 2 ''ab12'' (submitted (replicate 21 loc1)) = Some (q', None) \<and>
            jobs q' ''ab12'' = Some j' \<and> completed j' = 20 \<and> failure j' = 0) \<and>
   process_job w_beyond no_url 1 2 ''ab12'' (submitted (replicate 21 loc1)) =
     process_job w_ok no_url 1 2 ''ab12'' (submitted (replicate 21 loc1))"
proof -
  let ?locs = "replicate 21 loc1"
  note t = first_twenty_processed[OF jobs_submitted[of ?locs] sub_fresh sub_conc submitted_locations,
             where w = w_beyond and u = no_url and ?t1.0 = 1 and ?t2.0 = 2]
  have ok: "run_single_location w_beyond i (?locs ! i) PNone = run_single_location w_ok i (?locs ! i) PNone"
    if "i < 20" for i
    using that by (simp add: run_single_location_def w_beyond_def loc1_def)
  have nf: "\<not> isl (run_single_location w_beyond i (?locs ! i) PNone)" if "i < 20" for i
    using that by (simp add: run_single_location_def w_beyond_def w_ok_def loc1_def)
  have r: "run_single_location w_beyond 20 loc1 PNone = Inl (Raised ''boom'')"
    by (simp add: run_single_location_def w_beyond_def w_raise_def loc1_def)
  from t obtain q' j' where
    p: "process_job w_beyond no_url 1 2 ''ab12'' (submitted ?locs) = Some (q', None)"
       "jobs q' ''ab12'' = Some j'" "completed j' = min (length ?locs) 20"
       "failure j' =
          length (filter (\<lambda>i. isl (run_single_location w_beyond i (?locs ! i)
                                     (dict_get (payload (submitted_job ?locs)) ''proxy'' PNone)))
                    [0..<min (length ?locs) 20])"
    by blast
  have f: "failure j' = 0"
    using nf by (simp add: p(4) sub_proxy filter_empty_conv)
  have a: "\<exists>q' j'. process_job w_beyond no_url 1 2 ''ab12'' (submitted ?locs) = Some (q', None) \<and>
             jobs q' ''ab12'' = Some j' \<and> completed j' = 20 \<and> failure j' = 0"
    using p(1,2,3) f by simp
  have h: "\<forall>i<min (length ?locs) 20.
             run_single_location w_ok i (?locs ! i)
               (dict_get (payload (submitted_job ?locs)) ''proxy'' PNone) =
             run_single_location w_beyond i (?locs ! i)
               (dict_get (payload (submitted_job ?locs)) ''proxy'' PNone)"
    using ok by (simp add: sub_proxy)
  have b: "process_job w_ok no_url 1 2 ''ab12'' (submitted ?locs) =
           process_job w_beyond no_url 1 2 ''ab12'' (submitted ?locs)"
    by (rule t[THEN conjunct2, THEN conjunct2, THEN conjunct2, THEN spec, THEN mp, OF h])
  show ?thesis using a b r by simp
qed

text \<open>
  C9. \<^verbatim>\<open>remove\<close> is total (it is a function on queues that raises nothing) and
  idempotent: a second removal of the same identifier changes nothing, the removal of an
  absent identifier changes nothing, \<^verbatim>\<open>get\<close> after \<^verbatim>\<open>remove\<close> finds nothing whatever the
  queue was, and \<^verbatim>\<open>get\<close> of an unknown identifier finds nothing.
\<close>

theorem remove_idempotent:
  "remove_job job_id (remove_job job_id q) = remove_job job_id q \<and>
   get (remove_job job_id q) job_id = None \<and>
   (jobs q job_id = None \<longrightarrow> remove_job job_id q = q \<and> get q job_id = None)"
  by (auto simp: remove_job_def get_def fun_upd_idem)

theorem remove_idempotent_witness:
  "jobs q0 ''ab12'' = None \<and>
   remove_job ''ab12'' q0 = q0 \<and> get q0 ''ab12'' = None \<and>
   get (remove_job ''ab12'' (submitted [loc1])) ''ab12'' = None \<and>
   remove_job ''ab12'' (remove_job ''ab12'' (submitted [loc1])) = remove_job ''ab12'' (submitted [loc1])"
proof -
  have h: "jobs q0 ''ab12'' = None" by (simp add: q0_def)
  show ?thesis
    using h remove_idempotent[of "''ab12''" q0] remove_idempotent[of "''ab12''" "submitted [loc1]"]
    by simp
qed

text \<open>
  C10. When the call for some processed location returns a falsy value without raising,
  the task of that location leaves \<open>failure\<close> as it is and \<open>store_result\<close> writes
  nothing for it; the location is counted in \<open>completed\<close>, which is the number of
  processed locations; every recorded result is truthy; the count of results plus
  \<open>failure\<close> is less than the number of locations, so the count is less than the number
  of locations minus \<open>failure\<close>; and the job is \<^verbatim>\<open>DONE\<close>.
\<close>

theorem falsy_result_not_recorded:
  assumes "jobs q job_id = Some j" and "\<not> cancel_requested j"
      and "failure j = 0" and "completed j = 0"
      and "0 < per_job_concurrency q"
      and "dict_get (payload j) ''locations'' (PList []) = PList locs"
      and "i < length locs" and "i < 20"
      and "run_single_location w i (locs ! i) (dict_get (payload j) ''proxy'' PNone) = Inr v"
      and "\<not> truthy v"
  shows "\<exists>q' j'. process_job w u t1 t2 job_id q = Some (q', None) \<and> jobs q' job_id = Some j' \<and>
           status j' = DONE \<and> completed j' = min (length locs) 20 \<and>
           count (result j') + failure j' < min (length locs) 20 \<and>
           int (count (result j')) < int (length locs) - int (failure j') \<and>
           count (result j') = length (locations (result j')) \<and>
           (\<forall>d\<in>set (locations (result j')). truthy (PDict d)) \<and>
           (\<forall>f c rs. process_location w i (locs ! i) (claimed t1 j\<lparr> failure := f, completed := c \<rparr>)
                        = (v, claimed t1 j\<lparr> failure := f, completed := c \<rparr>) \<and>
                      store_result u (claimed t1 j\<lparr> failure := f, completed := c \<rparr>) i v rs = rs)"
proof -
  let ?p = "payload (claimed t1 j)"
  let ?l = "take 20 locs"
  let ?J = "except_finally t2 (fanned w u ?l (claimed t1 j))"
  have c: "\<not> cancel_requested (claimed t1 j)"
    using assms(2) by (simp add: claimed_simps)
  have i: "i < length ?l" using assms(7,8) by simp
  have r: "call_result w ?p i (?l ! i) = Inr v"
    using assms(8,9) by (simp add: call_result_def claimed_simps)
  have s: "count (result ?J) + failure ?J < length ?l"
    using count_fails_less[OF i r assms(10), of u] assms(3)
    by (simp add: final_counters[OF c] claimed_simps)
  have l: "failure ?J < length ?l"
    using s by linarith
  have d: "status ?J = DONE"
    using l by (intro final_done[OF c]) (auto simp: final_counters[OF c] min_def)
  have m: "completed ?J = length ?l"
    using assms(4) by (simp add: final_counters[OF c] claimed_simps)
  have e: "count (result ?J) = length (locations (result ?J))"
    by (simp add: final_counters[OF c] length_map_filter)
  have t: "\<forall>d\<in>set (locations (result ?J)). truthy (PDict d)"
    using kept_nonempty[of _ "map (slot_of w u ?p) (List.enumerate 0 ?l)"]
    by (simp add: final_counters[OF c] map_filter_map)
  have pl: "process_location w i (locs ! i) (claimed t1 j\<lparr> failure := f, completed := c' \<rparr>)
              = (v, claimed t1 j\<lparr> failure := f, completed := c' \<rparr>)" for f c'
    using assms(9) c by (simp add: process_location_def claimed_simps)
  have sr: "store_result u j1 i v rs = rs" for j1 rs
    using assms(10) by (simp add: store_result_def)
  have lt: "int (count (result ?J)) < int (length locs) - int (failure ?J)"
    using s by simp
  show ?thesis
    using s d m e t lt
    by (simp add: process_job_run[OF assms(1,2,5,6)] pl sr min.commute)
qed

theorem falsy_result_not_recorded_witness:
  "run_single_location w_second_none 1 loc2 PNone = Inr PNone \<and> \<not> truthy PNone \<and>
   (\<exists>q' j'. process_job w_second_none no_url 1 2 ''ab12'' (submitted [loc1, loc2]) = Some (q', None) \<and>
      jobs q' ''ab12'' = Some j' \<and> status j' = DONE \<and> completed j' = 2 \<and>
      count (result j') + failure j' < 2)"
proof -
  let ?locs = "[loc1, loc2]"
  have r1: "run_single_location w_second_none 1 loc2 PNone = Inr PNone"
    by (simp add: run_single_location_def w_second_none_def loc2_def)
  have h: "run_single_location w_second_none 1 (?locs ! 1)
             (dict_get (payload (submitted_job ?locs)) ''proxy'' PNone) = Inr PNone"
    using r1 by (simp add: sub_proxy)
  have t: "\<not> truthy PNone" by simp
  show ?thesis
    using falsy_result_not_recorded[OF jobs_submitted sub_fresh sub_conc submitted_locations _ _ h t,
            of no_url 1 2] r1
    by auto
qed

end
